theory Spec2Isabelle
  imports Complex_Main "HOL-Library.Sublist" "HOL-Library.Product_Lexorder" "HOL-Library.Option_ord"
begin

section \<open>Newphoria classification pipeline (scripts/classify.mjs, sql/schema.sql)\<close>

text \<open>
  The pipeline script is embedded function by function.  JavaScript values are modelled at
  the types the script handles them at:
  \<^item> a string is a \<open>string\<close>, one \<open>char\<close> per UTF-16 code unit below 256;
  \<^item> a property that may be \<open>undefined\<close> or \<open>null\<close> is an \<open>option\<close>;
  \<^item> a timestamp is an \<open>int\<close>, the milliseconds since the epoch;
  \<^item> \<open>Date.now()\<close> is a parameter of the function that reads it;
  \<^item> the store (Supabase) is a record of its tables, each an ordered list of rows; its
    queries answer, and an insert fails only as \<open>storeArticle\<close> below says.
  Console output is left out.
\<close>

subsection \<open>Configuration\<close>

record config_t =
  batch_size :: nat
  max_articles :: nat
  min_bloom_score :: int

definition config :: config_t where
  "config = \<lparr>batch_size = 10, max_articles = 200, min_bloom_score = 3\<rparr>"

subsection \<open>The store: table \<open>articles\<close> and table \<open>ingestion_log\<close> of schema.sql\<close>

datatype status_t = Draft | Published | Archived | Rejected

text \<open>An object of the oracle's reply, and the value of column \<open>raw_ai_response\<close>: the
  oracle's object for the item, \<open>{ error: message }\<close> after a failed chunk, or nothing.\<close>

record classification =
  bloom_score :: "int option"
  category :: "string option"
  is_weird :: "bool option"
  summary :: "string option"
  tags :: "string list option"
  confidence :: "rat option"

datatype raw_response = RawUndefined | RawObject classification | RawError string

record article =
  id :: nat
  title :: string
  excerpt :: "string option"
  source_url :: string
  category_name :: string
  bloom_score :: int
  is_weird :: bool
  published_at :: "int option"
  ai_summary :: "string option"
  ai_tags :: "string list"
  ai_confidence :: rat
  raw_ai_response :: raw_response
  is_featured :: bool
  view_count :: int
  status :: status_t

record log_row =
  source :: string
  articles_fetched :: nat
  articles_classified :: nat
  articles_published :: nat
  articles_rejected :: nat
  articles_deduplicated :: nat
  errors :: "string list option"
  duration_seconds :: int

record store =
  articles :: "article list"
  ingestion_log :: "log_row list"

subsection \<open>Items in flight\<close>

text \<open>The common item shape of the adapters.  Fields \<open>image_url\<close>, \<open>author\<close>,
  \<open>raw_content\<close> and \<open>api_source\<close> are carried through unread and are left out.\<close>

record raw_item =
  title :: "string option"
  excerpt :: "string option"
  source_url :: "string option"
  source_name :: string
  published_at :: "int option"

record classified_item = raw_item +
  bloom_score :: int
  category_name :: string
  is_weird :: bool
  ai_summary :: "string option"
  ai_tags :: "string list"
  ai_confidence :: rat
  raw_ai_response :: raw_response

record stats_t =
  fetched :: nat
  classified :: nat
  published :: nat
  rejected :: nat
  deduplicated :: nat
  errors :: "string list"

subsection \<open>Strings: \<open>toLowerCase\<close> and \<open>split(/\s+/)\<close>\<close>

text \<open>Upper-case letters are the codes 65 to 90 and, above 127, 192 to 222 without 215; the
  lower-case letter is 32 further, which for these codes is the same code with bit 5 set.\<close>

definition lower_char :: "char \<Rightarrow> char" where
  "lower_char c =
     (let n = (of_char c :: int)
      in if (65 \<le> n \<and> n \<le> 90) \<or> (192 \<le> n \<and> n \<le> 214) \<or> (216 \<le> n \<and> n \<le> 222)
         then (case c of Char b0 b1 b2 b3 b4 b5 b6 b7 \<Rightarrow> Char b0 b1 b2 b3 b4 True b6 b7)
         else c)"

definition toLowerCase :: "string \<Rightarrow> string" where
  "toLowerCase s = map lower_char s"

definition is_space :: "char \<Rightarrow> bool" where
  "is_space c = (let n = (of_char c :: int) in (9 \<le> n \<and> n \<le> 13) \<or> n = 32 \<or> n = 160)"

text \<open>\<open>s.split(/\s+/)\<close>: the pieces between maximal runs of white space; a string
  that starts or ends with white space gives an empty first or last piece.  \<open>cur\<close> is the
  piece being read, \<open>inrun\<close> says that the previous character was white space.\<close>

fun split_from :: "string \<Rightarrow> bool \<Rightarrow> string \<Rightarrow> string list" where
  "split_from cur inrun [] = [cur]"
| "split_from cur inrun (c # cs) =
     (if is_space c then (if inrun then split_from [] True cs else cur # split_from [] True cs)
      else split_from (cur @ [c]) False cs)"

definition split_ws :: "string \<Rightarrow> string list" where
  "split_ws s = split_from [] False s"

text \<open>\<open>t.toLowerCase().split(/\s+/).filter(w => w.length > 3)\<close>\<close>

definition title_words :: "string \<Rightarrow> string list" where
  "title_words t = filter (\<lambda>w. length w > 3) (split_ws (toLowerCase t))"

subsection \<open>Numbers: the quotient \<open>overlap / Math.max(...)\<close>\<close>

text \<open>The quotient of two non-negative integers as JavaScript computes it, up to rounding:
  \<open>0 / 0\<close> is NaN, \<open>n / 0\<close> is Infinity for positive \<open>n\<close>.  A comparison with NaN is false.\<close>

datatype js_number = NaN | Infinity | Finite rat

definition js_div :: "nat \<Rightarrow> nat \<Rightarrow> js_number" where
  "js_div n d = (if d = 0 then (if n = 0 then NaN else Infinity) else Finite (rat_of_nat n / rat_of_nat d))"

fun js_ge :: "js_number \<Rightarrow> rat \<Rightarrow> bool" where
  "js_ge NaN t = False"
| "js_ge Infinity t = True"
| "js_ge (Finite q) t = (q \<ge> t)"

subsection \<open>History deduplication: \<open>isDuplicate\<close>, \<open>findSimilar\<close>\<close>

text \<open>\<open>.gte('published_at', bound)\<close>: a NULL timestamp satisfies no comparison.\<close>

fun gte :: "int option \<Rightarrow> int \<Rightarrow> bool" where
  "gte None bound = False"
| "gte (Some t) bound = (t \<ge> bound)"

text \<open>\<open>isDuplicate(sourceUrl)\<close>: is there a row of \<open>articles\<close>, of any status, with this
  URL?  A missing URL equals no stored one.\<close>

definition isDuplicate :: "store \<Rightarrow> string option \<Rightarrow> bool" where
  "isDuplicate db sourceUrl =
     (let data = take 1 (filter (\<lambda>r. Some (article.source_url r) = sourceUrl) (articles db))
      in length data > 0)"

definition similarity :: "string list \<Rightarrow> string list \<Rightarrow> js_number" where
  "similarity words existingWords =
     (let overlap = length (filter (\<lambda>w. w \<in> set existingWords) words)
      in js_div overlap (max (length words) (length existingWords)))"

definition recent_published :: "store \<Rightarrow> int \<Rightarrow> article list" where
  "recent_published db now =
     filter (\<lambda>r. gte (article.published_at r) (now - 48 * 60 * 60 * 1000) \<and> status r = Published)
       (articles db)"

text \<open>\<open>findSimilar(title, threshold = 0.6)\<close>.  A title that is not a string has no
  \<open>toLowerCase\<close>: the call throws a TypeError, here \<open>Inl\<close> of its message.\<close>

definition type_error_message :: string where
  "type_error_message = ''Cannot read properties of undefined (reading 'toLowerCase')''"

definition findSimilar :: "store \<Rightarrow> int \<Rightarrow> string option \<Rightarrow> rat \<Rightarrow> string + article option" where
  "findSimilar db now title_arg threshold =
     (case title_arg of
        None \<Rightarrow> Inl type_error_message
      | Some t \<Rightarrow>
          (let words = title_words t;
               data = recent_published db now
           in Inr (find (\<lambda>existing.
                     js_ge (similarity words (title_words (article.title existing))) threshold) data)))"

definition default_threshold :: rat where
  "default_threshold = 6 / 10"

subsection \<open>Aggregation of the adapters' outputs (first part of \<open>run\<close>)\<close>

datatype 'a settled = PFulfilled 'a | PRejected

text \<open>What the call of the oracle, the extraction of the text and \<open>JSON.parse\<close> give for a
  chunk: an exception with its message, or an array of objects in which each of the six
  fields is absent or has the type the prompt asks for.  A reply that parses to anything
  else is not covered.\<close>

datatype oracle_outcome = Threw string | Parsed "classification list"

text \<open>What one run meets outside the script: the four settled adapter promises, the
  oracle (field \<open>anthropic\<close>), the inserts that fail for a reason other than a constraint of
  the schema, and the clock readings: \<open>startTime\<close>, the one of the queries, \<open>now\<close>, and the
  one at the end.\<close>

record env =
  newsapi :: "raw_item list settled"
  guardian :: "raw_item list settled"
  gnews :: "raw_item list settled"
  rss :: "raw_item list settled"
  anthropic :: "raw_item list \<Rightarrow> oracle_outcome"
  insert_fault :: "classified_item \<Rightarrow> string option"
  startTime :: int
  now :: int
  endTime :: int

fun settled_value :: "'a list settled \<Rightarrow> 'a list" where
  "settled_value (PFulfilled v) = v"
| "settled_value PRejected = []"

definition collect :: "env \<Rightarrow> raw_item list" where
  "collect e = settled_value (newsapi e) @ settled_value (guardian e)
             @ settled_value (gnews e) @ settled_value (rss e)"

text \<open>Truthiness of a string that may be missing: \<open>undefined\<close>, \<open>null\<close> and the empty
  string are falsy.\<close>

fun truthy :: "string option \<Rightarrow> bool" where
  "truthy None = False"
| "truthy (Some s) = (s \<noteq> [])"

definition has_title_and_url :: "raw_item \<Rightarrow> bool" where
  "has_title_and_url a = (truthy (title a) \<and> truthy (source_url a))"

text \<open>The filter over the set \<open>seen\<close>.\<close>

fun first_seen :: "string option set \<Rightarrow> raw_item list \<Rightarrow> raw_item list" where
  "first_seen seen [] = []"
| "first_seen seen (a # rest) =
     (if source_url a \<in> seen then first_seen seen rest
      else a # first_seen (insert (source_url a) seen) rest)"

definition aggregate :: "raw_item list \<Rightarrow> raw_item list" where
  "aggregate allArticles =
     take (max_articles config) (first_seen {} (filter has_title_and_url allArticles))"

subsection \<open>The loop over the candidates that checks them against the store\<close>

definition count_duplicate :: "stats_t \<Rightarrow> stats_t" where
  "count_duplicate s = s\<lparr>deduplicated := deduplicated s + 1\<rparr>"

text \<open>The result is \<open>Inl\<close> when \<open>findSimilar\<close> throws (the message and the statistics so
  far), else \<open>newArticles\<close> and the statistics.\<close>

fun history_loop ::
  "store \<Rightarrow> int \<Rightarrow> raw_item list \<Rightarrow> stats_t \<Rightarrow> (string \<times> stats_t) + (raw_item list \<times> stats_t)" where
  "history_loop db t [] s = Inr ([], s)"
| "history_loop db t (a # rest) s =
     (if isDuplicate db (source_url a) then history_loop db t rest (count_duplicate s)
      else (case findSimilar db t (title a) default_threshold of
              Inl msg \<Rightarrow> Inl (msg, s)
            | Inr (Some similar) \<Rightarrow> history_loop db t rest (count_duplicate s)
            | Inr None \<Rightarrow>
                (case history_loop db t rest s of
                   Inl err \<Rightarrow> Inl err
                 | Inr (newArticles, s') \<Rightarrow> Inr (a # newArticles, s'))))"

subsection \<open>\<open>classifyBatch\<close> and the loop over the chunks\<close>

text \<open>\<open>v || d\<close> for a number, a string, a boolean and an array that may be missing.\<close>

fun or_number :: "('a::zero) option \<Rightarrow> 'a \<Rightarrow> 'a" where
  "or_number None d = d"
| "or_number (Some v) d = (if v = 0 then d else v)"

fun or_string :: "string option \<Rightarrow> string \<Rightarrow> string" where
  "or_string None d = d"
| "or_string (Some v) d = (if v = [] then d else v)"

fun or_summary :: "string option \<Rightarrow> string option \<Rightarrow> string option" where
  "or_summary None d = d"
| "or_summary (Some v) d = (if v = [] then d else Some v)"

fun or_bool :: "bool option \<Rightarrow> bool \<Rightarrow> bool" where
  "or_bool None d = d"
| "or_bool (Some v) d = (if v then v else d)"

fun or_array :: "'a list option \<Rightarrow> 'a list \<Rightarrow> 'a list" where
  "or_array None d = d"
| "or_array (Some v) d = v"

text \<open>\<open>classifications[i]\<close>, undefined past the end, and \<open>c?.field\<close>.\<close>

definition at_index :: "'a list \<Rightarrow> nat \<Rightarrow> 'a option" where
  "at_index xs i = (if i < length xs then Some (xs ! i) else None)"

fun opt_field :: "'a option \<Rightarrow> ('a \<Rightarrow> 'b option) \<Rightarrow> 'b option" where
  "opt_field None f = None"
| "opt_field (Some c) f = f c"

fun raw_of :: "classification option \<Rightarrow> raw_response" where
  "raw_of None = RawUndefined"
| "raw_of (Some c) = RawObject c"

text \<open>The object built for one article in the \<open>try\<close> branch.\<close>

definition classify_item :: "raw_item \<Rightarrow> classification option \<Rightarrow> classified_item" where
  "classify_item a c =
     \<lparr>title = title a, excerpt = excerpt a, source_url = source_url a,
      source_name = source_name a, published_at = published_at a,
      bloom_score = or_number (opt_field c classification.bloom_score) 3,
      category_name = or_string (opt_field c category) ''progress'',
      is_weird = or_bool (opt_field c classification.is_weird) False,
      ai_summary = or_summary (opt_field c summary) (excerpt a),
      ai_tags = or_array (opt_field c tags) [],
      ai_confidence = or_number (opt_field c confidence) (1 / 2),
      raw_ai_response = raw_of c\<rparr>"

text \<open>The object built for one article in the \<open>catch\<close> branch.\<close>

definition fallback_item :: "string \<Rightarrow> raw_item \<Rightarrow> classified_item" where
  "fallback_item msg a =
     \<lparr>title = title a, excerpt = excerpt a, source_url = source_url a,
      source_name = source_name a, published_at = published_at a,
      bloom_score = 3,
      category_name = ''progress'',
      is_weird = False,
      ai_summary = excerpt a,
      ai_tags = [],
      ai_confidence = 0,
      raw_ai_response = RawError msg\<rparr>"

definition classifyBatch :: "oracle_outcome \<Rightarrow> raw_item list \<Rightarrow> classified_item list" where
  "classifyBatch outcome batch =
     (case outcome of
        Parsed classifications \<Rightarrow>
          map (\<lambda>(a, i). classify_item a (at_index classifications i))
              (zip batch [0 ..< length batch])
      | Threw msg \<Rightarrow> map (fallback_item msg) batch)"

text \<open>\<open>for (let i = 0; i < newArticles.length; i += config.batch_size)\<close>: the classified
  items and what the loop adds to \<open>stats.classified\<close>.\<close>

function classify_from ::
  "(raw_item list \<Rightarrow> oracle_outcome) \<Rightarrow> raw_item list \<Rightarrow> nat \<Rightarrow> classified_item list \<times> nat" where
  "classify_from orc newArticles i =
     (if i < length newArticles then
        (let batch = take (batch_size config) (drop i newArticles);
             results = classifyBatch (orc batch) batch;
             (more, n) = classify_from orc newArticles (i + batch_size config)
         in (results @ more, length results + n))
      else ([], 0))"
  by pat_completeness auto
termination
  by (relation "measure (\<lambda>(orc, xs, i). length xs - i)") (auto simp: config_def)

declare classify_from.simps [simp del]

subsection \<open>\<open>storeArticle\<close> and the loop that stores the classified items\<close>

datatype store_result = Skipped | Failed string | Stored nat bool

text \<open>The key the store gives a new row: one that no row has.\<close>

definition next_id :: "article list \<Rightarrow> nat" where
  "next_id rows = Suc (fold max (map article.id rows) 0)"

definition publish_status :: "int \<Rightarrow> status_t" where
  "publish_status score = (if score \<ge> min_bloom_score config then Published else Rejected)"

definition not_null_message :: string where
  "not_null_message = ''null value violates not-null constraint''"

text \<open>The row that the insert of \<open>record\<close> adds for an item with title \<open>t\<close> and URL \<open>u\<close>,
  under the key \<open>new_id\<close>.  Columns \<open>is_featured\<close> and \<open>view_count\<close> take their defaults.  The
  lookups of the source and of the category, and the columns they fill, are left out.\<close>

definition inserted_row :: "nat \<Rightarrow> string \<Rightarrow> string \<Rightarrow> classified_item \<Rightarrow> article" where
  "inserted_row new_id t u a =
     \<lparr>article.id = new_id, article.title = t,
      article.excerpt = excerpt a, article.source_url = u,
      article.category_name = category_name a,
      article.bloom_score = bloom_score a,
      article.is_weird = is_weird a,
      article.published_at = published_at a,
      article.ai_summary = ai_summary a,
      article.ai_tags = ai_tags a,
      article.ai_confidence = ai_confidence a,
      article.raw_ai_response = raw_ai_response a,
      is_featured = False, view_count = 0,
      status = publish_status (bloom_score a)\<rparr>"

text \<open>\<open>storeArticle\<close>.  The insert fails outright when the environment says so; columns
  \<open>title\<close> and \<open>source_url\<close> are \<open>not null\<close>; a row with the same \<open>source_url\<close> is a violation
  of the unique constraint, code 23505, which \<open>storeArticle\<close> reports as skipped.\<close>

definition storeArticle ::
  "(classified_item \<Rightarrow> string option) \<Rightarrow> store \<Rightarrow> classified_item \<Rightarrow> store_result \<times> store" where
  "storeArticle fault db a =
     (let record_status = publish_status (bloom_score a)
      in case fault a of
           Some msg \<Rightarrow> (Failed msg, db)
         | None \<Rightarrow>
            (case (title a, source_url a) of
               (Some t, Some u) \<Rightarrow>
                 if list_ex (\<lambda>r. article.source_url r = u) (articles db) then (Skipped, db)
                 else
                   (let new_id = next_id (articles db)
                    in (Stored new_id (record_status = Published),
                        db\<lparr>articles := articles db @ [inserted_row new_id t u a]\<rparr>))
             | _ \<Rightarrow> (Failed not_null_message, db)))"

text \<open>\<open>for (const article of classified)\<close> with the four-way count.\<close>

definition count_result :: "store_result \<Rightarrow> stats_t \<Rightarrow> stats_t" where
  "count_result res s =
     (case res of
        Skipped \<Rightarrow> s\<lparr>deduplicated := deduplicated s + 1\<rparr>
      | Failed msg \<Rightarrow> s\<lparr>errors := stats_t.errors s @ [msg]\<rparr>
      | Stored new_id is_published \<Rightarrow>
          if is_published then s\<lparr>published := published s + 1\<rparr>
          else s\<lparr>rejected := rejected s + 1\<rparr>)"

fun store_loop ::
  "(classified_item \<Rightarrow> string option) \<Rightarrow> classified_item list \<Rightarrow> store \<times> stats_t \<Rightarrow> store \<times> stats_t" where
  "store_loop fault [] (db, s) = (db, s)"
| "store_loop fault (a # rest) (db, s) =
     (let (res, db') = storeArticle fault db a
      in store_loop fault rest (db', count_result res s))"

subsection \<open>\<open>updateFeatured\<close>\<close>

text \<open>\<open>order('bloom_score', descending)\<close> then \<open>order('published_at', descending)\<close>, as an
  ascending key; rows that tie stay in the order of the table.\<close>

definition featured_key :: "article \<Rightarrow> int \<times> int option" where
  "featured_key r = (- article.bloom_score r, map_option uminus (article.published_at r))"

definition featured_query :: "article list \<Rightarrow> int \<Rightarrow> article list" where
  "featured_query rows t =
     take 3 (sort_key featured_key
       (filter (\<lambda>r. status r = Published \<and> gte (article.published_at r) (t - 24 * 60 * 60 * 1000))
          rows))"

definition updateFeatured :: "int \<Rightarrow> store \<Rightarrow> store" where
  "updateFeatured t db =
     (let cleared = map (\<lambda>r. if is_featured r then r\<lparr>is_featured := False\<rparr> else r) (articles db);
          data = featured_query cleared t;
          ids = map article.id data
      in if length data > 0
         then db\<lparr>articles := map (\<lambda>r. if article.id r \<in> set ids then r\<lparr>is_featured := True\<rparr> else r) cleared\<rparr>
         else db\<lparr>articles := cleared\<rparr>)"

subsection \<open>\<open>run\<close>\<close>

definition initial_stats :: stats_t where
  "initial_stats = \<lparr>fetched = 0, classified = 0, published = 0, rejected = 0,
                      deduplicated = 0, errors = []\<rparr>"

text \<open>\<open>Math.round((Date.now() - startTime) / 1000)\<close>: halves round up.\<close>

definition duration_of :: "env \<Rightarrow> int" where
  "duration_of e = (endTime e - startTime e + 500) div 1000"

text \<open>The insert into \<open>ingestion_log\<close> that follows the \<open>try\<close> statement.\<close>

definition write_log :: "env \<Rightarrow> stats_t \<Rightarrow> store \<Rightarrow> store" where
  "write_log e s db =
     db\<lparr>ingestion_log := ingestion_log db @
        [\<lparr>source = ''all'',
          articles_fetched = fetched s,
          articles_classified = classified s,
          articles_published = published s,
          articles_rejected = rejected s,
          articles_deduplicated = deduplicated s,
          errors = (if length (stats_t.errors s) > 0 then Some (stats_t.errors s) else None),
          duration_seconds = duration_of e\<rparr>]\<rparr>"

text \<open>The body of the \<open>try\<close> statement ends in one of three ways: it returns from \<open>run\<close>
  (no new article), it throws, or it reaches its end.\<close>

datatype body_end = Returned | Thrown string stats_t store | Completed stats_t store

definition run_body :: "env \<Rightarrow> store \<Rightarrow> body_end" where
  "run_body e db =
     (let allArticles = aggregate (collect e);
          s = initial_stats\<lparr>fetched := length allArticles\<rparr>
      in case history_loop db (now e) allArticles s of
           Inl (msg, s1) \<Rightarrow> Thrown msg s1 db
         | Inr (newArticles, s1) \<Rightarrow>
             if length newArticles = 0 then Returned
             else
               (let (classified_items, n) = classify_from (anthropic e) newArticles 0;
                    s2 = s1\<lparr>classified := classified s1 + n\<rparr>;
                    (db3, s3) = store_loop (insert_fault e) classified_items (db, s2);
                    db4 = updateFeatured (now e) db3
                in Completed s3 db4))"

definition run :: "env \<Rightarrow> store \<Rightarrow> store" where
  "run e db =
     (case run_body e db of
        Returned \<Rightarrow> db
      | Thrown msg s db' \<Rightarrow> write_log e (s\<lparr>errors := stats_t.errors s @ [msg]\<rparr>) db'
      | Completed s db' \<Rightarrow> write_log e s db')"

subsection \<open>The views of schema.sql and the queries of the data layer\<close>

text \<open>\<open>order by published_at desc\<close> as an ascending key: NULL comes first.  The views
  select columns of \<open>articles\<close>; here they give the rows.\<close>

definition newest_first :: "article list \<Rightarrow> article list" where
  "newest_first rows = sort_key (\<lambda>r. map_option uminus (article.published_at r)) rows"

definition feed_articles :: "store \<Rightarrow> article list" where
  "feed_articles db =
     newest_first (filter (\<lambda>a. status a = Published \<and> article.bloom_score a \<ge> 3) (articles db))"

definition weird_articles :: "store \<Rightarrow> article list" where
  "weird_articles db = filter (\<lambda>a. article.is_weird a) (feed_articles db)"

definition featured_articles :: "store \<Rightarrow> article list" where
  "featured_articles db = take 3 (newest_first (filter is_featured (feed_articles db)))"

definition fetchArticles :: "store \<Rightarrow> string option \<Rightarrow> nat \<Rightarrow> nat \<Rightarrow> bool \<Rightarrow> article list" where
  "fetchArticles db category_arg limit offset weird =
     (if weird then take limit (drop offset (newest_first (weird_articles db)))
      else if truthy category_arg \<and> category_arg \<noteq> Some ''all''
      then take limit (drop offset (newest_first
             (filter (\<lambda>a. Some (article.category_name a) = category_arg) (feed_articles db))))
      else take limit (drop offset (newest_first (feed_articles db))))"

definition fetchFeatured :: "store \<Rightarrow> article list" where
  "fetchFeatured db = take 3 (featured_articles db)"

definition fetchTrending :: "store \<Rightarrow> article list" where
  "fetchTrending db = take 7 (sort_key (\<lambda>a. - view_count a) (feed_articles db))"

subsection \<open>Definitions that follow the specification's wording\<close>

text \<open>First-seen-wins: an item stays, the later items with its URL go.\<close>

fun keep_first_per_url :: "raw_item list \<Rightarrow> raw_item list" where
  "keep_first_per_url [] = []"
| "keep_first_per_url (a # rest) =
     a # keep_first_per_url (filter (\<lambda>b. source_url b \<noteq> source_url a) rest)"

text \<open>The similarity read over token sets: the number of distinct common tokens over the
  larger number of distinct tokens.\<close>

definition token_set_similarity :: "string list \<Rightarrow> string list \<Rightarrow> rat" where
  "token_set_similarity candidate existing =
     rat_of_nat (card (set candidate \<inter> set existing))
       / rat_of_nat (max (card (set candidate)) (card (set existing)))"

text \<open>The similarity with repeated tokens counted: the number of candidate tokens that
  occur among the existing tokens, over the larger of the two numbers of tokens.\<close>

definition token_count_similarity :: "string list \<Rightarrow> string list \<Rightarrow> rat" where
  "token_count_similarity candidate existing =
     rat_of_nat (length (filter (\<lambda>w. w \<in> set existing) candidate))
       / rat_of_nat (max (length candidate) (length existing))"

subsection \<open>Predicates and abbreviations used in the statements\<close>

text \<open>The second check of the loop found a record: \<open>findSimilar\<close> returned one.\<close>

definition fuzzy_match :: "store \<Rightarrow> int \<Rightarrow> string option \<Rightarrow> bool" where
  "fuzzy_match db t title_arg =
     (case findSimilar db t title_arg default_threshold of
        Inr (Some similar) \<Rightarrow> True
      | _ \<Rightarrow> False)"

definition history_duplicate :: "store \<Rightarrow> int \<Rightarrow> raw_item \<Rightarrow> bool" where
  "history_duplicate db t a = (isDuplicate db (source_url a) \<or> fuzzy_match db t (title a))"

text \<open>A row the query of \<open>updateFeatured\<close> selects from, at clock reading \<open>t\<close>.\<close>

definition eligible :: "int \<Rightarrow> article \<Rightarrow> bool" where
  "eligible t r = (status r = Published \<and> gte (article.published_at r) (t - 24 * 60 * 60 * 1000))"

text \<open>A row with its flag saying whether it is among the chosen rows.\<close>

definition flag :: "article list \<Rightarrow> article \<Rightarrow> article" where
  "flag chosen c = c\<lparr>is_featured := c \<in> set chosen\<rparr>"

text \<open>The statistics after storing items that are all inserted.\<close>

definition counted :: "classified_item list \<Rightarrow> stats_t \<Rightarrow> stats_t" where
  "counted cs s =
     s\<lparr>published := published s + length (filter (\<lambda>c. min_bloom_score config \<le> bloom_score c) cs),
       rejected := rejected s + length (filter (\<lambda>c. bloom_score c < min_bloom_score config) cs)\<rparr>"

subsection \<open>Sample inputs\<close>

definition item :: "string \<Rightarrow> string \<Rightarrow> raw_item" where
  "item t u = \<lparr>title = Some t, excerpt = Some ''text'', source_url = Some u,
               source_name = ''feed'', published_at = None\<rparr>"

definition stored_row :: "nat \<Rightarrow> string \<Rightarrow> string \<Rightarrow> int \<Rightarrow> status_t \<Rightarrow> int \<Rightarrow> bool \<Rightarrow> article" where
  "stored_row i t u b st p f =
     \<lparr>article.id = i, article.title = t, article.excerpt = None, article.source_url = u,
      article.category_name = ''progress'', article.bloom_score = b, article.is_weird = False,
      article.published_at = Some p, article.ai_summary = None, article.ai_tags = [],
      article.ai_confidence = 1, article.raw_ai_response = RawUndefined,
      is_featured = f, view_count = 0, status = st\<rparr>"

definition scored :: "int \<Rightarrow> classification" where
  "scored b = \<lparr>classification.bloom_score = Some b, category = Some ''science'',
               classification.is_weird = Some True, summary = Some ''short'',
               tags = Some [''tag''], confidence = Some (9 / 10)\<rparr>"

definition sample_feed :: "raw_item list" where
  "sample_feed =
     [item ''Solar record'' ''u1'',
      \<lparr>title = None, excerpt = None, source_url = Some ''u2'', source_name = ''feed'',
       published_at = None\<rparr>,
      item ''Solar again'' ''u1'',
      item [] ''u3'',
      item ''Coral reef'' ''u2'']"

definition history_store :: store where
  "history_store =
     \<lparr>articles = [stored_row 1 ''Old unrelated item'' ''u1'' 4 Published 900 False,
                  stored_row 2 ''Solar farm opens today'' ''w2'' 4 Published 950 False],
      ingestion_log = []\<rparr>"

definition history_cands :: "raw_item list" where
  "history_cands =
     [\<lparr>title = None, excerpt = None, source_url = Some ''u1'', source_name = ''feed'',
       published_at = None\<rparr>,
      item ''Big solar farm opens'' ''u7'',
      item ''Coral reef grows'' ''u8'']"

definition repeat_store :: store where
  "repeat_store =
     \<lparr>articles = [stored_row 2 ''Solar farm opens as solar farm demand grows'' ''w2'' 4
                    Published 950 False],
      ingestion_log = []\<rparr>"

definition featured_store :: store where
  "featured_store =
     \<lparr>articles = [stored_row 1 ''Alpha'' ''u1'' 5 Published 150000000 False,
                  stored_row 2 ''Beta'' ''u2'' 4 Published 190000000 True,
                  stored_row 3 ''Gamma'' ''u3'' 4 Published 180000000 False,
                  stored_row 4 ''Delta'' ''u4'' 3 Published 195000000 True,
                  stored_row 5 ''Epsilon'' ''u5'' 5 Published 100 True,
                  stored_row 6 ''Zeta'' ''u6'' 2 Rejected 199000000 False],
      ingestion_log = []\<rparr>"

definition low_item :: classified_item where
  "low_item = classify_item (item ''Coral reef grows'' ''u8'') (Some (scored 2))"

text \<open>A run over a feed whose items are all in the store already.\<close>

definition rerun_env :: env where
  "rerun_env =
     \<lparr>newsapi = PFulfilled [item ''Old unrelated item'' ''u1'', item ''Big solar farm opens'' ''u7''],
      guardian = PRejected, gnews = PFulfilled [], rss = PFulfilled [],
      anthropic = (\<lambda>batch. Parsed (map (\<lambda>a. scored 5) batch)),
      insert_fault = (\<lambda>a. None),
      startTime = 1000, now = 1200, endTime = 3400\<rparr>"


text \<open>The end-to-end scenario: adapters with 5, none (rejected) and 7 items, two URLs
  twice; one candidate stored already, one with a title close to a stored one.\<close>

definition scenario_env :: env where
  "scenario_env =
     \<lparr>newsapi = PFulfilled [item ''topic01 report01'' ''u01'', item ''topic02 report02'' ''u02'',
                           item ''topic03 report03'' ''u03'', item ''topic04 report04'' ''u04'',
                           item ''topic05 report05'' ''u05''],
      guardian = PRejected,
      gnews = PFulfilled [item ''topic04 report04'' ''u04'', item ''topic05 report05'' ''u05'',
                         item ''topic06 report06'' ''u06'', item ''topic07 report07'' ''u07'',
                         item ''topic08 report08'' ''u08'', item ''topic09 report09'' ''u09'',
                         item ''topic10 report10'' ''u10''],
      rss = PFulfilled [],
      anthropic = (\<lambda>batch. Parsed (map scored [5, 4, 3, 2, 1, 5, 4, 3])),
      insert_fault = (\<lambda>a. None),
      startTime = 1000, now = 1200, endTime = 5600\<rparr>"

definition scenario_store :: store where
  "scenario_store =
     \<lparr>articles = [stored_row 1 ''Other story entirely'' ''u02'' 4 Published 100 False,
                  stored_row 2 ''Topic03 Report03 update'' ''w03'' 4 Published 900 False],
      ingestion_log = []\<rparr>"

section \<open>Properties\<close>

subsection \<open>Lower case\<close>

text \<open>Setting bit 5 adds 32 to the code of an upper-case letter.\<close>

lemma lower_char_code:
  "(of_char (lower_char c) :: int) =
     (let n = of_char c
      in if (65 \<le> n \<and> n \<le> 90) \<or> (192 \<le> n \<and> n \<le> 214) \<or> (216 \<le> n \<and> n \<le> 222)
         then n + 32 else n)"
proof (cases c)
  case (Char b0 b1 b2 b3 b4 b5 b6 b7)
  then show ?thesis
    by (cases b5; cases b6; cases b7; cases b4; cases b3)
       (simp_all add: lower_char_def Let_def of_bool_def)
qed

subsection \<open>Fuzzy matching of a title without tokens\<close>

lemma similarity_no_words:
  "similarity [] existingWords = (if existingWords = [] then NaN else Finite 0)"
  by (simp add: similarity_def js_div_def)

lemma find_none_if: "(\<And>x. x \<in> set xs \<Longrightarrow> \<not> P x) \<Longrightarrow> find P xs = None"
  by (simp add: find_None_iff)

text \<open>
  Claim C10.  A candidate title whose tokens all have at most three characters has an empty
  list of words.  Then \<open>findSimilar\<close> returns null whatever the store holds: against every
  stored title the similarity is \<open>0 / 0\<close>, NaN, when that title has no words either, and 0
  otherwise, and neither reaches a positive threshold such as the default 0.6.
\<close>

theorem findSimilar_without_tokens:
  assumes "title_words t = []" and "0 < threshold"
  shows "findSimilar db clock (Some t) threshold = Inr None
       \<and> similarity (title_words t) existingWords = (if existingWords = [] then NaN else Finite 0)
       \<and> \<not> js_ge (similarity (title_words t) existingWords) threshold"
proof -
  have no: "\<not> js_ge (similarity [] ws) threshold" for ws
    using assms(2) by (simp add: similarity_no_words)
  have "find (\<lambda>existing. js_ge (similarity [] (title_words (article.title existing))) threshold)
          (recent_published db clock) = None"
    by (rule find_none_if) (rule no)
  then show ?thesis
    using assms(1) no by (simp add: findSimilar_def similarity_no_words)
qed

theorem findSimilar_without_tokens_witness:
  "title_words ''The cat sat'' = [] \<and>
   findSimilar \<lparr>articles = [stored_row 1 ''The cat sat'' ''u1'' 4 Published 900 False],
                ingestion_log = []\<rparr>
     1000 (Some ''The cat sat'') default_threshold = Inr None"
proof -
  have h: "title_words ''The cat sat'' = []" by code_simp
  have p: "0 < default_threshold" by (simp add: default_threshold_def)
  show ?thesis using findSimilar_without_tokens [OF h p] h by simp
qed

subsection \<open>The aggregator\<close>

lemma first_seen_filter:
  "first_seen seen xs = keep_first_per_url (filter (\<lambda>a. source_url a \<notin> seen) xs)"
proof (induction xs arbitrary: seen)
  case Nil
  then show ?case by simp
next
  case (Cons a rest)
  have "filter (\<lambda>b. source_url b \<noteq> source_url a) (filter (\<lambda>b. source_url b \<notin> seen) rest)
      = filter (\<lambda>b. source_url b \<notin> insert (source_url a) seen) rest"
    by (induction rest) auto
  then show ?case using Cons.IH by simp
qed

lemma subseq_first_seen: "subseq (first_seen seen xs) xs"
  by (induction xs arbitrary: seen) auto

lemma first_seen_subset: "set (first_seen seen xs) \<subseteq> set xs"
  by (induction xs arbitrary: seen) auto

lemma first_seen_urls: "source_url ` set (first_seen seen xs) = source_url ` set xs - seen"
  by (induction xs arbitrary: seen) auto

lemma distinct_first_seen: "distinct (map source_url (first_seen seen xs))"
  by (induction xs arbitrary: seen) (simp_all add: first_seen_urls)

lemma aggregate_subset: "set (aggregate xs) \<subseteq> set (filter has_title_and_url xs)"
  unfolding aggregate_def
  using set_take_subset [of "max_articles config" "first_seen {} (filter has_title_and_url xs)"]
        first_seen_subset [of "{}" "filter has_title_and_url xs"] by blast

lemma aggregate_distinct: "distinct (map source_url (aggregate xs))"
  unfolding aggregate_def take_map [symmetric]
  by (rule distinct_take) (rule distinct_first_seen)

text \<open>
  Claim C9.  The aggregator drops every item whose title or source URL is missing (or
  empty), keeps of the remaining items the first one of each source URL, cuts the result to
  \<open>max_articles\<close> items, and leaves the survivors in the order of the input.
\<close>

theorem aggregate_first_seen_wins:
  "aggregate xs = take (max_articles config) (keep_first_per_url (filter has_title_and_url xs))
   \<and> subseq (aggregate xs) xs
   \<and> distinct (map source_url (aggregate xs))
   \<and> (\<forall>a\<in>set (aggregate xs). truthy (title a) \<and> truthy (source_url a))
   \<and> length (aggregate xs) \<le> max_articles config"
proof -
  let ?valid = "filter has_title_and_url xs"
  have eq: "aggregate xs = take (max_articles config) (keep_first_per_url ?valid)"
    by (simp add: aggregate_def first_seen_filter)
  have "subseq (first_seen {} ?valid) xs"
    using subseq_first_seen [of "{}" ?valid] subseq_filter_left [of has_title_and_url xs]
    by (rule subseq_order.order_trans)
  then have sub: "subseq (aggregate xs) xs"
    unfolding aggregate_def
    by (rule subseq_order.order_trans [OF prefix_imp_subseq [OF take_is_prefix]])
  have val: "\<forall>a\<in>set (aggregate xs). truthy (title a) \<and> truthy (source_url a)"
    using aggregate_subset [of xs] by (auto simp: has_title_and_url_def)
  have len: "length (aggregate xs) \<le> max_articles config"
    by (simp add: aggregate_def)
  from eq sub aggregate_distinct [of xs] val len show ?thesis by blast
qed

theorem aggregate_first_seen_wins_witness:
  "aggregate sample_feed = [item ''Solar record'' ''u1'', item ''Coral reef'' ''u2'']
   \<and> take (max_articles config) (keep_first_per_url (filter has_title_and_url sample_feed))
       = [item ''Solar record'' ''u1'', item ''Coral reef'' ''u2'']
   \<and> subseq (aggregate sample_feed) sample_feed"
proof -
  have v: "take (max_articles config) (keep_first_per_url (filter has_title_and_url sample_feed))
       = [item ''Solar record'' ''u1'', item ''Coral reef'' ''u2'']"
    by code_simp
  from aggregate_first_seen_wins [of sample_feed]
  have "aggregate sample_feed
          = take (max_articles config) (keep_first_per_url (filter has_title_and_url sample_feed))"
    and "subseq (aggregate sample_feed) sample_feed"
    by blast+
  with v show ?thesis by simp
qed

subsection \<open>\<open>classifyBatch\<close>\<close>

lemma classifyBatch_length: "length (classifyBatch outcome batch) = length batch"
  by (cases outcome) (simp_all add: classifyBatch_def)

lemma classifyBatch_parsed_nth:
  "i < length batch \<Longrightarrow>
     classifyBatch (Parsed cs) batch ! i = classify_item (batch ! i) (at_index cs i)"
  by (simp add: classifyBatch_def)

lemma classifyBatch_threw: "classifyBatch (Threw msg) batch = map (fallback_item msg) batch"
  by (simp add: classifyBatch_def)

text \<open>
  Claim C1 (as amended).  When the oracle call or the parsing of its reply throws, every item
  of the chunk gets the fallback values: bloom score 3, category \<open>progress\<close>, not weird, the
  excerpt as summary, no tags, confidence 0, and the message as raw response.  When the reply
  parses to an array, nothing compares its length or its order with the chunk.  Item \<open>i\<close>
  takes from object \<open>i\<close> each field that is present and truthy, and the default of the field
  otherwise: a score or a confidence of 0, an empty category or summary and a false flag
  count as absent.  The defaults are bloom score 3, \<open>progress\<close>, not weird, the excerpt, no
  tags and confidence 0.5.  An item past the end of the array gets, alone, all these defaults.
\<close>

theorem classifyBatch_fallback_scope:
  "classifyBatch (Threw msg) batch = map (fallback_item msg) batch
   \<and> length (classifyBatch (Threw msg) batch) = length batch
   \<and> (i < length batch \<longrightarrow>
        bloom_score (classifyBatch (Threw msg) batch ! i) = 3
      \<and> category_name (classifyBatch (Threw msg) batch ! i) = ''progress''
      \<and> is_weird (classifyBatch (Threw msg) batch ! i) = False
      \<and> ai_summary (classifyBatch (Threw msg) batch ! i) = excerpt (batch ! i)
      \<and> ai_tags (classifyBatch (Threw msg) batch ! i) = []
      \<and> ai_confidence (classifyBatch (Threw msg) batch ! i) = 0
      \<and> raw_ai_response (classifyBatch (Threw msg) batch ! i) = RawError msg
      \<and> title (classifyBatch (Threw msg) batch ! i) = title (batch ! i)
      \<and> source_url (classifyBatch (Threw msg) batch ! i) = source_url (batch ! i))
   \<and> length (classifyBatch (Parsed cs) batch) = length batch
   \<and> (i < length batch \<and> i < length cs \<longrightarrow>
        bloom_score (classifyBatch (Parsed cs) batch ! i)
          = (case classification.bloom_score (cs ! i) of
               None \<Rightarrow> 3 | Some v \<Rightarrow> if v = 0 then 3 else v)
      \<and> category_name (classifyBatch (Parsed cs) batch ! i)
          = (case category (cs ! i) of
               None \<Rightarrow> ''progress'' | Some v \<Rightarrow> if v = [] then ''progress'' else v)
      \<and> is_weird (classifyBatch (Parsed cs) batch ! i)
          = (classification.is_weird (cs ! i) = Some True)
      \<and> ai_summary (classifyBatch (Parsed cs) batch ! i)
          = (case summary (cs ! i) of
               None \<Rightarrow> excerpt (batch ! i)
             | Some v \<Rightarrow> if v = [] then excerpt (batch ! i) else Some v)
      \<and> ai_tags (classifyBatch (Parsed cs) batch ! i)
          = (case tags (cs ! i) of None \<Rightarrow> [] | Some v \<Rightarrow> v)
      \<and> ai_confidence (classifyBatch (Parsed cs) batch ! i)
          = (case confidence (cs ! i) of
               None \<Rightarrow> 1 / 2 | Some v \<Rightarrow> if v = 0 then 1 / 2 else v)
      \<and> raw_ai_response (classifyBatch (Parsed cs) batch ! i) = RawObject (cs ! i)
      \<and> title (classifyBatch (Parsed cs) batch ! i) = title (batch ! i)
      \<and> source_url (classifyBatch (Parsed cs) batch ! i) = source_url (batch ! i))
   \<and> (i < length batch \<and> length cs \<le> i \<longrightarrow>
        bloom_score (classifyBatch (Parsed cs) batch ! i) = 3
      \<and> category_name (classifyBatch (Parsed cs) batch ! i) = ''progress''
      \<and> is_weird (classifyBatch (Parsed cs) batch ! i) = False
      \<and> ai_summary (classifyBatch (Parsed cs) batch ! i) = excerpt (batch ! i)
      \<and> ai_tags (classifyBatch (Parsed cs) batch ! i) = []
      \<and> ai_confidence (classifyBatch (Parsed cs) batch ! i) = 1 / 2
      \<and> raw_ai_response (classifyBatch (Parsed cs) batch ! i) = RawUndefined
      \<and> title (classifyBatch (Parsed cs) batch ! i) = title (batch ! i)
      \<and> source_url (classifyBatch (Parsed cs) batch ! i) = source_url (batch ! i))"
proof -
  have threw: "classifyBatch (Threw msg) batch ! i = fallback_item msg (batch ! i)"
    if "i < length batch"
    using that by (simp add: classifyBatch_threw)
  have inside: "classifyBatch (Parsed cs) batch ! i = classify_item (batch ! i) (Some (cs ! i))"
    if "i < length batch" and "i < length cs"
    using that by (simp add: classifyBatch_parsed_nth at_index_def)
  have past: "classifyBatch (Parsed cs) batch ! i = classify_item (batch ! i) None"
    if "i < length batch" and "length cs \<le> i"
    using that by (simp add: classifyBatch_parsed_nth at_index_def)
  have f: "bloom_score (fallback_item msg a) = 3 \<and> category_name (fallback_item msg a) = ''progress''
      \<and> is_weird (fallback_item msg a) = False \<and> ai_summary (fallback_item msg a) = excerpt a
      \<and> ai_tags (fallback_item msg a) = [] \<and> ai_confidence (fallback_item msg a) = 0
      \<and> raw_ai_response (fallback_item msg a) = RawError msg
      \<and> title (fallback_item msg a) = title a
      \<and> source_url (fallback_item msg a) = source_url a" for a
    by (simp add: fallback_item_def)
  have g: "bloom_score (classify_item a (Some c))
          = (case classification.bloom_score c of None \<Rightarrow> 3 | Some v \<Rightarrow> if v = 0 then 3 else v)
      \<and> category_name (classify_item a (Some c))
          = (case category c of None \<Rightarrow> ''progress'' | Some v \<Rightarrow> if v = [] then ''progress'' else v)
      \<and> is_weird (classify_item a (Some c)) = (classification.is_weird c = Some True)
      \<and> ai_summary (classify_item a (Some c))
          = (case summary c of None \<Rightarrow> excerpt a | Some v \<Rightarrow> if v = [] then excerpt a else Some v)
      \<and> ai_tags (classify_item a (Some c)) = (case tags c of None \<Rightarrow> [] | Some v \<Rightarrow> v)
      \<and> ai_confidence (classify_item a (Some c))
          = (case confidence c of None \<Rightarrow> 1 / 2 | Some v \<Rightarrow> if v = 0 then 1 / 2 else v)
      \<and> raw_ai_response (classify_item a (Some c)) = RawObject c
      \<and> title (classify_item a (Some c)) = title a
      \<and> source_url (classify_item a (Some c)) = source_url a" for a c
  proof -
    have n: "or_number x d = (case x of None \<Rightarrow> d | Some v \<Rightarrow> if v = 0 then d else v)"
      for x :: "('z::zero) option" and d
      by (cases x) simp_all
    have st: "or_string x d = (case x of None \<Rightarrow> d | Some v \<Rightarrow> if v = [] then d else v)"
      for x d
      by (cases x) simp_all
    have su: "or_summary x d = (case x of None \<Rightarrow> d | Some v \<Rightarrow> if v = [] then d else Some v)"
      for x d
      by (cases x) simp_all
    have bo: "or_bool x False = (x = Some True)" for x
      by (cases x) auto
    have ar: "or_array x d = (case x of None \<Rightarrow> d | Some v \<Rightarrow> v)" for x :: "string list option" and d
      by (cases x) simp_all
    show ?thesis
      by (simp add: classify_item_def n st su bo ar)
  qed
  have h: "bloom_score (classify_item a None) = 3 \<and> category_name (classify_item a None) = ''progress''
      \<and> is_weird (classify_item a None) = False \<and> ai_summary (classify_item a None) = excerpt a
      \<and> ai_tags (classify_item a None) = [] \<and> ai_confidence (classify_item a None) = 1 / 2
      \<and> raw_ai_response (classify_item a None) = RawUndefined
      \<and> title (classify_item a None) = title a
      \<and> source_url (classify_item a None) = source_url a" for a
    by (simp add: classify_item_def)
  show ?thesis
  proof (intro conjI impI)
    show "classifyBatch (Threw msg) batch = map (fallback_item msg) batch"
      by (rule classifyBatch_threw)
  qed (use f [of "batch ! i"] g [of "batch ! i" "cs ! i"] h [of "batch ! i"] in
        \<open>simp_all only: classifyBatch_length threw inside past\<close>)
qed

text \<open>Sample reply: one object, with confidence 0, for a chunk of two items.\<close>

theorem classifyBatch_fallback_scope_witness:
  "bloom_score (classifyBatch (Parsed [(scored 5)\<lparr>confidence := Some 0\<rparr>])
      [item ''Solar record'' ''u1'', item ''Coral reef'' ''u2''] ! 0) = 5
   \<and> category_name (classifyBatch (Parsed [(scored 5)\<lparr>confidence := Some 0\<rparr>])
      [item ''Solar record'' ''u1'', item ''Coral reef'' ''u2''] ! 0) = ''science''
   \<and> ai_confidence (classifyBatch (Parsed [(scored 5)\<lparr>confidence := Some 0\<rparr>])
      [item ''Solar record'' ''u1'', item ''Coral reef'' ''u2''] ! 0) = 1 / 2
   \<and> bloom_score (classifyBatch (Parsed [(scored 5)\<lparr>confidence := Some 0\<rparr>])
      [item ''Solar record'' ''u1'', item ''Coral reef'' ''u2''] ! 1) = 3
   \<and> ai_confidence (classifyBatch (Parsed [(scored 5)\<lparr>confidence := Some 0\<rparr>])
      [item ''Solar record'' ''u1'', item ''Coral reef'' ''u2''] ! 1) = 1 / 2
   \<and> bloom_score (classifyBatch (Threw ''bad'')
      [item ''Solar record'' ''u1'', item ''Coral reef'' ''u2''] ! 1) = 3
   \<and> ai_confidence (classifyBatch (Threw ''bad'')
      [item ''Solar record'' ''u1'', item ''Coral reef'' ''u2''] ! 1) = 0"
proof -
  let ?b = "[item ''Solar record'' ''u1'', item ''Coral reef'' ''u2'']"
  let ?cs = "[(scored 5)\<lparr>confidence := Some 0\<rparr>]"
  have l0: "0 < length ?b \<and> 0 < length ?cs" by simp
  have l1: "1 < length ?b \<and> length ?cs \<le> 1" by simp
  have l2: "1 < length ?b" by simp
  from classifyBatch_fallback_scope [of "''bad''" ?b 0 ?cs] l0
  have "bloom_score (classifyBatch (Parsed ?cs) ?b ! 0)
          = (case classification.bloom_score (?cs ! 0) of
               None \<Rightarrow> 3 | Some v \<Rightarrow> if v = 0 then 3 else v)"
    and "category_name (classifyBatch (Parsed ?cs) ?b ! 0)
          = (case category (?cs ! 0) of
               None \<Rightarrow> ''progress'' | Some v \<Rightarrow> if v = [] then ''progress'' else v)"
    and "ai_confidence (classifyBatch (Parsed ?cs) ?b ! 0)
          = (case confidence (?cs ! 0) of
               None \<Rightarrow> 1 / 2 | Some v \<Rightarrow> if v = 0 then 1 / 2 else v)"
    by blast+
  then have inside: "bloom_score (classifyBatch (Parsed ?cs) ?b ! 0) = 5"
    "category_name (classifyBatch (Parsed ?cs) ?b ! 0) = ''science''"
    "ai_confidence (classifyBatch (Parsed ?cs) ?b ! 0) = 1 / 2"
    by (simp_all add: scored_def)
  from classifyBatch_fallback_scope [of "''bad''" ?b 1 ?cs] l1
  have past: "bloom_score (classifyBatch (Parsed ?cs) ?b ! 1) = 3"
    "ai_confidence (classifyBatch (Parsed ?cs) ?b ! 1) = 1 / 2"
    by blast+
  from classifyBatch_fallback_scope [of "''bad''" ?b 1 ?cs] l2
  have threw: "bloom_score (classifyBatch (Threw ''bad'') ?b ! 1) = 3"
    "ai_confidence (classifyBatch (Threw ''bad'') ?b ! 1) = 0"
    by blast+
  from inside past threw show ?thesis by blast
qed

text \<open>Claim C1 as stated fails: the reply has one object for a chunk of two items, the
  first item keeps the oracle's score 5 and category, the second gets confidence 0.5.\<close>

theorem partial_reply_counterexample:
  "length [scored 5] < length [item ''Solar record'' ''u1'', item ''Coral reef'' ''u2'']
   \<and> bloom_score (classifyBatch (Parsed [scored 5])
         [item ''Solar record'' ''u1'', item ''Coral reef'' ''u2''] ! 0) = 5
   \<and> category_name (classifyBatch (Parsed [scored 5])
         [item ''Solar record'' ''u1'', item ''Coral reef'' ''u2''] ! 0) = ''science''
   \<and> ai_confidence (classifyBatch (Parsed [scored 5])
         [item ''Solar record'' ''u1'', item ''Coral reef'' ''u2''] ! 1) = 1 / 2"
  by (simp add: classifyBatch_def classify_item_def at_index_def scored_def fallback_item_def)

subsection \<open>The history checks\<close>

lemma history_loop_total:
  assumes "\<forall>a\<in>set cands. isDuplicate db (source_url a) \<or> title a \<noteq> None"
  shows "history_loop db t cands s =
           Inr (filter (\<lambda>a. \<not> history_duplicate db t a) cands,
                s\<lparr>deduplicated := deduplicated s + length (filter (history_duplicate db t) cands)\<rparr>)"
  using assms
proof (induction cands arbitrary: s)
  case Nil
  then show ?case by simp
next
  case (Cons a rest)
  then have IH: "history_loop db t rest s' =
           Inr (filter (\<lambda>a. \<not> history_duplicate db t a) rest,
                s'\<lparr>deduplicated := deduplicated s' + length (filter (history_duplicate db t) rest)\<rparr>)" for s'
    by simp
  show ?case
  proof (cases "isDuplicate db (source_url a)")
    case True
    then have dup: "history_duplicate db t a" by (simp add: history_duplicate_def)
    from True show ?thesis
      by (simp add: IH dup count_duplicate_def)
  next
    case False
    with Cons.prems obtain ttl where ttl: "title a = Some ttl" by auto
    then obtain found where f: "findSimilar db t (title a) default_threshold = Inr found"
      by (simp add: findSimilar_def)
    show ?thesis
    proof (cases found)
      case None
      with f False have dup: "\<not> history_duplicate db t a"
        by (simp add: history_duplicate_def fuzzy_match_def)
      from None f False show ?thesis
        by (simp add: IH dup)
    next
      case (Some similar)
      with f have dup: "history_duplicate db t a"
        by (simp add: history_duplicate_def fuzzy_match_def)
      from Some f False show ?thesis
        by (simp add: IH dup count_duplicate_def)
    qed
  qed
qed

lemma history_loop_keeps_fresh:
  "history_loop db t cands s = Inr (newArticles, s') \<Longrightarrow>
     newArticles = filter (\<lambda>a. \<not> history_duplicate db t a) cands"
proof (induction cands arbitrary: s newArticles s')
  case Nil
  then show ?case by simp
next
  case (Cons a rest)
  show ?case
  proof (cases "isDuplicate db (source_url a)")
    case True
    then have dup: "history_duplicate db t a" by (simp add: history_duplicate_def)
    from True Cons.prems have "history_loop db t rest (count_duplicate s) = Inr (newArticles, s')"
      by simp
    from Cons.IH [OF this] dup show ?thesis by simp
  next
    case False
    with Cons.prems obtain found where f: "findSimilar db t (title a) default_threshold = Inr found"
      by (cases "findSimilar db t (title a) default_threshold") auto
    show ?thesis
    proof (cases found)
      case None
      with f False Cons.prems obtain rest_new where
        r: "history_loop db t rest s = Inr (rest_new, s')" and n: "newArticles = a # rest_new"
        by (auto split: sum.splits)
      from None f False have dup: "\<not> history_duplicate db t a"
        by (simp add: history_duplicate_def fuzzy_match_def)
      from Cons.IH [OF r] n dup show ?thesis by simp
    next
      case (Some similar)
      with f have dup: "history_duplicate db t a"
        by (simp add: history_duplicate_def fuzzy_match_def)
      from Some f False Cons.prems
      have "history_loop db t rest (count_duplicate s) = Inr (newArticles, s')"
        by simp
      from Cons.IH [OF this] dup show ?thesis by simp
    qed
  qed
qed

lemma token_count_similarity_implies_match:
  assumes "6 / 10 \<le> token_count_similarity ws es"
  shows "js_ge (similarity ws es) default_threshold"
proof -
  let ?m = "max (length ws) (length es)"
  let ?overlap = "length (filter (\<lambda>w. w \<in> set es) ws)"
  have pos: "?m \<noteq> 0"
  proof
    assume "?m = 0"
    then have "token_count_similarity ws es = 0" by (simp add: token_count_similarity_def)
    with assms show False by simp
  qed
  from assms have ge: "default_threshold \<le> rat_of_nat ?overlap / rat_of_nat ?m"
    by (simp only: token_count_similarity_def default_threshold_def)
  have "similarity ws es = Finite (rat_of_nat ?overlap / rat_of_nat ?m)"
    using pos by (simp add: similarity_def js_div_def Let_def)
  with ge show ?thesis by simp
qed

lemma find_some_if: "x \<in> set xs \<Longrightarrow> P x \<Longrightarrow> \<exists>y. find P xs = Some y"
  by (cases "find P xs") (auto simp: find_None_iff)

lemma similar_row_fuzzy_match:
  assumes "row \<in> set (articles db)" and "status row = Published"
    and "gte (article.published_at row) (t - 48 * 60 * 60 * 1000)"
    and "6 / 10 \<le> token_count_similarity (title_words T1) (title_words (article.title row))"
  shows "fuzzy_match db t (Some T1)"
proof -
  have "row \<in> set (recent_published db t)"
    using assms(1-3) by (simp add: recent_published_def)
  from find_some_if [of row "recent_published db t"
         "\<lambda>existing. js_ge (similarity (title_words T1) (title_words (article.title existing)))
                        default_threshold",
       OF this token_count_similarity_implies_match [OF assms(4)]]
  show ?thesis
    by (auto simp: fuzzy_match_def findSimilar_def)
qed


lemma truncate_classify_item: "raw_item.truncate (classify_item a c) = a"
  by (simp add: raw_item.truncate_def classify_item_def)

lemma truncate_fallback_item: "raw_item.truncate (fallback_item msg a) = a"
  by (simp add: raw_item.truncate_def fallback_item_def)

lemma classifyBatch_truncate: "map raw_item.truncate (classifyBatch outcome batch) = batch"
proof (cases outcome)
  case (Threw msg)
  then show ?thesis
    by (simp add: classifyBatch_def truncate_fallback_item comp_def)
next
  case (Parsed cs)
  have "map raw_item.truncate
          (map (\<lambda>(a, i). classify_item a (at_index cs i)) (zip batch [0 ..< length batch]))
        = map fst (zip batch [0 ..< length batch])"
    by (simp add: truncate_classify_item comp_def case_prod_unfold)
  with Parsed show ?thesis by (simp add: classifyBatch_def)
qed

lemma classify_from_truncate:
  "map raw_item.truncate (fst (classify_from orc xs i)) = drop i xs
   \<and> snd (classify_from orc xs i) = length xs - i"
proof (induction orc xs i rule: classify_from.induct)
  case (1 orc xs i)
  show ?case
  proof (cases "i < length xs")
    case False
    then show ?thesis by (subst classify_from.simps, subst (2) classify_from.simps) simp
  next
    case True
    let ?batch = "take (batch_size config) (drop i xs)"
    let ?results = "classifyBatch (orc ?batch) ?batch"
    obtain more n where mn: "classify_from orc xs (i + batch_size config) = (more, n)"
      by (cases "classify_from orc xs (i + batch_size config)")
    from "1.IH" [OF True refl refl] mn
    have IH: "map raw_item.truncate more = drop (i + batch_size config) xs"
      and IHn: "n = length xs - (i + batch_size config)"
      by simp_all
    have unfold: "classify_from orc xs i = (?results @ more, length ?results + n)"
      using True mn by (subst classify_from.simps) (simp add: Let_def)
    have cut: "?batch @ drop (i + batch_size config) xs = drop i xs"
      by (metis add.commute append_take_drop_id drop_drop)
    have "map raw_item.truncate (fst (classify_from orc xs i)) = ?batch @ drop (i + batch_size config) xs"
      by (simp only: unfold fst_conv map_append classifyBatch_truncate IH)
    then have one: "map raw_item.truncate (fst (classify_from orc xs i)) = drop i xs"
      by (simp only: cut)
    have "length ?results = min (batch_size config) (length xs - i)"
      by (simp add: classifyBatch_length)
    then have two: "snd (classify_from orc xs i) = length xs - i"
      using True by (simp only: unfold snd_conv IHn)
    from one two show ?thesis ..
  qed
qed

lemma classify_from_titles:
  "title ` set (fst (classify_from orc xs 0)) = title ` set xs"
proof -
  have "map title (fst (classify_from orc xs 0))
      = map (\<lambda>a. title a) (map raw_item.truncate (fst (classify_from orc xs 0)))"
    by (simp add: raw_item.truncate_def comp_def)
  also have "\<dots> = map title xs"
    using classify_from_truncate [of orc xs 0] by simp
  finally have "set (map title (fst (classify_from orc xs 0))) = set (map title xs)" by simp
  then show ?thesis by simp
qed

text \<open>
  Claim C5 (as amended).  Let a stored record have status published and a \<open>published_at\<close>
  within the 48 hours before the check, and let candidate title \<open>T1\<close> have similarity at
  least 0.6 with its title, where the similarity counts repeated tokens: the number of
  tokens of \<open>T1\<close> that occur among the tokens of the stored title, over the larger of the two
  numbers of tokens (tokens lower-cased, split at white space, those of length at most 3
  dropped).  Then the fuzzy check matches \<open>T1\<close>, no item titled \<open>T1\<close> is among the new articles
  the loop returns, and none is among the items that the classification loop produces from
  them.
\<close>

theorem similar_recent_title_is_duplicate:
  assumes "row \<in> set (articles db)" and "status row = Published"
    and "gte (article.published_at row) (t - 48 * 60 * 60 * 1000)"
    and "6 / 10 \<le> token_count_similarity (title_words T1) (title_words (article.title row))"
    and "history_loop db t cands s = Inr (newArticles, s')"
  shows "fuzzy_match db t (Some T1)
       \<and> Some T1 \<notin> title ` set newArticles
       \<and> Some T1 \<notin> title ` set (fst (classify_from orc newArticles 0))"
proof -
  have m: "fuzzy_match db t (Some T1)"
    using assms(1-4) by (rule similar_row_fuzzy_match)
  have "newArticles = filter (\<lambda>a. \<not> history_duplicate db t a) cands"
    using assms(5) by (rule history_loop_keeps_fresh)
  with m have "Some T1 \<notin> title ` set newArticles"
    by (auto simp: history_duplicate_def)
  with m show ?thesis by (simp add: classify_from_titles)
qed

text \<open>
  Claim C6.  For each candidate the loop first asks for a stored record with the same URL and
  only when there is none runs the fuzzy title check: a candidate with an exact match is
  skipped without the title being read (a candidate without a title makes the fuzzy check
  throw, and does so only when the exact check found nothing).  Every candidate that matches,
  exactly or fuzzily, is left out of the new articles and adds exactly one to
  \<open>deduplicated\<close>; the others are kept, in order, and add nothing.
\<close>

theorem history_checks_in_order:
  assumes "\<forall>a\<in>set cands. isDuplicate db (source_url a) \<or> title a \<noteq> None"
  shows "history_loop db t cands s =
           Inr (filter (\<lambda>a. \<not> history_duplicate db t a) cands,
                s\<lparr>deduplicated := deduplicated s + length (filter (history_duplicate db t) cands)\<rparr>)
       \<and> (isDuplicate db (source_url c) \<longrightarrow>
            history_loop db t (c # rest) s0
              = history_loop db t rest (s0\<lparr>deduplicated := deduplicated s0 + 1\<rparr>))
       \<and> (\<not> isDuplicate db (source_url c) \<and> fuzzy_match db t (title c) \<longrightarrow>
            history_loop db t (c # rest) s0
              = history_loop db t rest (s0\<lparr>deduplicated := deduplicated s0 + 1\<rparr>))
       \<and> (\<not> isDuplicate db (source_url c) \<and> title c = None \<longrightarrow>
            history_loop db t (c # rest) s0 = Inl (type_error_message, s0))"
proof -
  have fuzzy: "history_loop db t (c # rest) s0
              = history_loop db t rest (s0\<lparr>deduplicated := deduplicated s0 + 1\<rparr>)"
    if "\<not> isDuplicate db (source_url c)" and "fuzzy_match db t (title c)"
    using that by (auto simp: fuzzy_match_def count_duplicate_def split: sum.splits option.splits)
  have thrown: "history_loop db t (c # rest) s0 = Inl (type_error_message, s0)"
    if "\<not> isDuplicate db (source_url c)" and "title c = None"
    using that by (simp add: findSimilar_def)
  from history_loop_total [OF assms] fuzzy thrown show ?thesis
    by (simp add: count_duplicate_def)
qed

theorem history_checks_in_order_witness:
  "history_loop history_store 1000 history_cands initial_stats
     = Inr ([item ''Coral reef grows'' ''u8''], initial_stats\<lparr>deduplicated := 2\<rparr>)"
proof -
  have h: "\<forall>a\<in>set history_cands. isDuplicate history_store (source_url a) \<or> title a \<noteq> None"
    by code_simp
  have k: "filter (\<lambda>a. \<not> history_duplicate history_store 1000 a) history_cands
             = [item ''Coral reef grows'' ''u8'']"
    by code_simp
  have d: "length (filter (history_duplicate history_store 1000) history_cands) = 2"
    by code_simp
  have z: "deduplicated initial_stats = 0" by (simp add: initial_stats_def)
  from history_checks_in_order [OF h, of 1000 initial_stats]
  have "history_loop history_store 1000 history_cands initial_stats =
           Inr (filter (\<lambda>a. \<not> history_duplicate history_store 1000 a) history_cands,
                initial_stats\<lparr>deduplicated := deduplicated initial_stats
                   + length (filter (history_duplicate history_store 1000) history_cands)\<rparr>)"
    by blast
  then show ?thesis by (simp only: k d z) simp
qed

theorem similar_recent_title_is_duplicate_witness:
  "stored_row 2 ''Solar farm opens today'' ''w2'' 4 Published 950 False \<in> set (articles history_store)
   \<and> 6 / 10 \<le> token_count_similarity (title_words ''Big solar farm opens'')
                  (title_words ''Solar farm opens today'')
   \<and> history_loop history_store 1000 history_cands initial_stats
        = Inr ([item ''Coral reef grows'' ''u8''], initial_stats\<lparr>deduplicated := 2\<rparr>)
   \<and> fuzzy_match history_store 1000 (Some ''Big solar farm opens'')
   \<and> Some ''Big solar farm opens'' \<notin> title ` set [item ''Coral reef grows'' ''u8'']"
proof -
  let ?row = "stored_row 2 ''Solar farm opens today'' ''w2'' 4 Published 950 False"
  have a1: "?row \<in> set (articles history_store)" by (simp add: history_store_def)
  have a2: "status ?row = Published" by (simp add: stored_row_def)
  have a3: "gte (article.published_at ?row) (1000 - 48 * 60 * 60 * 1000)"
    by (simp add: stored_row_def)
  have a4: "6 / 10 \<le> token_count_similarity (title_words ''Big solar farm opens'')
                        (title_words (article.title ?row))"
    by code_simp
  have a5: "history_loop history_store 1000 history_cands initial_stats
        = Inr ([item ''Coral reef grows'' ''u8''], initial_stats\<lparr>deduplicated := 2\<rparr>)"
    by code_simp
  from similar_recent_title_is_duplicate [OF a1 a2 a3 a4 a5] a1 a4 a5
  show ?thesis by (simp add: stored_row_def)
qed

text \<open>Claim C5 as stated, with the similarity over token sets, fails: the stored title
  repeats two tokens, the sets have 3 of 5 tokens in common, \<open>findSimilar\<close> divides 3 by the
  7 tokens of the stored title and returns null, and the candidate is a new article that the
  classification loop classifies.\<close>

theorem repeated_tokens_counterexample:
  "stored_row 2 ''Solar farm opens as solar farm demand grows'' ''w2'' 4 Published 950 False
      \<in> set (articles repeat_store)
   \<and> gte (Some 950) (1000 - 48 * 60 * 60 * 1000)
   \<and> 6 / 10 \<le> token_set_similarity (title_words ''Solar farm opens'')
                  (title_words ''Solar farm opens as solar farm demand grows'')
   \<and> similarity (title_words ''Solar farm opens'')
         (title_words ''Solar farm opens as solar farm demand grows'') = Finite (3 / 7)
   \<and> findSimilar repeat_store 1000 (Some ''Solar farm opens'') default_threshold = Inr None
   \<and> history_loop repeat_store 1000 [item ''Solar farm opens'' ''u7''] initial_stats
        = Inr ([item ''Solar farm opens'' ''u7''], initial_stats)
   \<and> map title (fst (classify_from (\<lambda>batch. Parsed (map (\<lambda>a. scored 5) batch))
                         [item ''Solar farm opens'' ''u7''] 0))
        = [Some ''Solar farm opens'']"
  by code_simp

subsection \<open>The featured set\<close>

lemma sorted_take_le_drop:
  assumes "sorted (map k xs)" and "x \<in> set (take n xs)" and "y \<in> set (drop n xs)"
  shows "k x \<le> k y"
proof -
  have "sorted (map k (take n xs) @ map k (drop n xs))"
    using assms(1) by (simp only: map_append [symmetric] append_take_drop_id)
  with assms(2,3) show ?thesis by (auto simp: sorted_append)
qed

lemma length_filter_member:
  assumes "distinct xs" and "distinct ys" and "set ys \<subseteq> set xs"
  shows "length (filter (\<lambda>x. x \<in> set ys) xs) = length ys"
proof -
  have "length (filter (\<lambda>x. x \<in> set ys) xs) = card ({x. x \<in> set ys} \<inter> set xs)"
    using assms(1) by (rule distinct_length_filter)
  also have "{x. x \<in> set ys} \<inter> set xs = set ys" using assms(3) by auto
  finally show ?thesis using assms(2) by (simp add: distinct_card)
qed

lemma clear_flag: "(if is_featured r then r\<lparr>is_featured := False\<rparr> else r) = r\<lparr>is_featured := False\<rparr>"
  by simp

lemma featured_query_eligible:
  "featured_query rows t = take 3 (sort_key featured_key (filter (eligible t) rows))"
proof -
  have "eligible t = (\<lambda>r. status r = Published \<and> gte (article.published_at r) (t - 24 * 60 * 60 * 1000))"
    by (rule ext) (simp add: eligible_def)
  then show ?thesis by (simp add: featured_query_def)
qed

lemma updateFeatured_rows:
  assumes "distinct (map article.id (articles db))"
  shows "articles (updateFeatured t db)
       = map (flag (featured_query (map (\<lambda>r. r\<lparr>is_featured := False\<rparr>) (articles db)) t))
             (map (\<lambda>r. r\<lparr>is_featured := False\<rparr>) (articles db))"
proof -
  let ?cl = "map (\<lambda>r. r\<lparr>is_featured := False\<rparr>) (articles db)"
  let ?top = "featured_query ?cl t"
  have ids: "map article.id ?cl = map article.id (articles db)" by (simp add: comp_def)
  have inj: "inj_on article.id (set ?cl)"
    using assms ids by (metis distinct_map)
  have sub: "set ?top \<subseteq> set ?cl"
    unfolding featured_query_def using set_take_subset by fastforce
  have mem: "article.id c \<in> set (map article.id ?top) \<longleftrightarrow> c \<in> set ?top" if c: "c \<in> set ?cl" for c
  proof
    assume "article.id c \<in> set (map article.id ?top)"
    then obtain d where d: "d \<in> set ?top" and e: "article.id d = article.id c"
      by (auto simp only: set_map)
    from sub d have "d \<in> set ?cl" by (rule subsetD)
    from inj_onD [OF inj e this c] d show "c \<in> set ?top" by (simp only:)
  next
    assume "c \<in> set ?top"
    then show "article.id c \<in> set (map article.id ?top)" by (simp only: set_map) (rule imageI)
  qed
  have step: "(if article.id c \<in> set (map article.id ?top) then c\<lparr>is_featured := True\<rparr> else c)
            = flag ?top c" if "c \<in> set ?cl" for c
  proof -
    from that obtain r where "c = r\<lparr>is_featured := False\<rparr>" by (auto simp only: set_map)
    then have "c\<lparr>is_featured := False\<rparr> = c" by simp
    then show ?thesis unfolding flag_def mem [OF that] by (cases "c \<in> set ?top") simp_all
  qed
  have full: "map (\<lambda>c. if article.id c \<in> set (map article.id ?top) then c\<lparr>is_featured := True\<rparr> else c) ?cl
            = map (flag ?top) ?cl"
    by (rule map_cong [OF refl]) (rule step)
  have empty: "map (flag ?top) ?cl = ?cl" if "?top = []"
    using that by (auto simp: flag_def intro!: map_idI)
  show ?thesis
  proof (cases "?top = []")
    case True
    then show ?thesis
      using empty [OF True] by (simp add: updateFeatured_def Let_def clear_flag)
  next
    case False
    then show ?thesis
      using full by (simp add: updateFeatured_def Let_def clear_flag)
  qed
qed


lemma eligible_flag [simp]: "eligible t (flag chosen c) = eligible t c"
  by (simp add: eligible_def flag_def)

lemma eligible_unflag [simp]: "eligible t (r\<lparr>is_featured := b\<rparr>) = eligible t r"
  by (simp add: eligible_def)

lemma featured_key_flag [simp]: "featured_key (flag chosen c) = featured_key c"
  by (simp add: featured_key_def flag_def)

lemma is_featured_flag [simp]: "is_featured (flag chosen c) = (c \<in> set chosen)"
  by (simp add: flag_def)

lemma featured_key_order:
  "article.published_at f = Some pf \<Longrightarrow> article.published_at e = Some pe \<Longrightarrow>
     (featured_key f \<le> featured_key e)
       = (article.bloom_score e < article.bloom_score f
          \<or> (article.bloom_score e = article.bloom_score f \<and> pe \<le> pf))"
  by (auto simp: featured_key_def less_eq_prod_def)

text \<open>
  Claim C8.  Let the keys of table \<open>articles\<close> be distinct.  After \<open>updateFeatured\<close> only the
  flags have changed; every featured row is published and of the last 24 hours; the featured
  rows are 3, or all such rows when there are fewer; and no such row that is not featured
  ranks above a featured one, in the order by bloom score descending, then publication time
  descending.  So a row featured before the call and outside these top rows is no longer
  featured.  Rows that tie on both columns are taken in table order.
\<close>

theorem updateFeatured_top_three:
  assumes "distinct (map article.id (articles db))"
  shows "map (\<lambda>r. r\<lparr>is_featured := False\<rparr>) (articles (updateFeatured t db))
           = map (\<lambda>r. r\<lparr>is_featured := False\<rparr>) (articles db)
       \<and> (\<forall>r\<in>set (articles (updateFeatured t db)). is_featured r \<longrightarrow> eligible t r)
       \<and> length (filter is_featured (articles (updateFeatured t db)))
           = min 3 (length (filter (eligible t) (articles db)))
       \<and> (\<forall>f\<in>set (articles (updateFeatured t db)). \<forall>e\<in>set (articles (updateFeatured t db)).
             is_featured f \<and> eligible t e \<and> \<not> is_featured e \<longrightarrow> featured_key f \<le> featured_key e)
       \<and> (article.published_at f0 = Some pf \<and> article.published_at e0 = Some pe \<longrightarrow>
             (featured_key f0 \<le> featured_key e0)
               = (article.bloom_score e0 < article.bloom_score f0
                  \<or> (article.bloom_score e0 = article.bloom_score f0 \<and> pe \<le> pf)))"
proof -
  let ?cl = "map (\<lambda>r. r\<lparr>is_featured := False\<rparr>) (articles db)"
  let ?E = "filter (eligible t) ?cl"
  let ?S = "sort_key featured_key ?E"
  let ?top = "take 3 ?S"
  have rows: "articles (updateFeatured t db) = map (flag ?top) ?cl"
    using updateFeatured_rows [OF assms, of t] by (simp only: featured_query_eligible)
  have "map article.id ?cl = map article.id (articles db)" by (simp add: comp_def)
  with assms have dcl: "distinct ?cl" by (metis distinct_map)
  then have dtop: "distinct ?top" by simp
  have topE: "set ?top \<subseteq> set ?E"
    using set_take_subset [of 3 ?S] by simp
  then have topcl: "set ?top \<subseteq> set ?cl" by auto
  have p1: "map (\<lambda>r. r\<lparr>is_featured := False\<rparr>) (articles (updateFeatured t db)) = ?cl"
    by (simp add: rows flag_def comp_def)
  have p2: "\<forall>r\<in>set (articles (updateFeatured t db)). is_featured r \<longrightarrow> eligible t r"
  proof (intro ballI impI)
    fix r assume "r \<in> set (articles (updateFeatured t db))" and f: "is_featured r"
    then obtain c where c: "c \<in> set ?cl" and r: "r = flag ?top c"
      by (auto simp only: rows set_map)
    from f r have "c \<in> set ?top" by simp
    with topE have "eligible t c" by auto
    with r show "eligible t r" by simp
  qed
  have "filter is_featured (map (flag ?top) ?cl)
          = map (flag ?top) (filter (\<lambda>c. c \<in> set ?top) ?cl)"
    by (simp add: filter_map comp_def)
  then have "length (filter is_featured (articles (updateFeatured t db)))
          = length (filter (\<lambda>c. c \<in> set ?top) ?cl)"
    by (simp only: rows length_map)
  also have "\<dots> = length ?top"
    using dcl dtop topcl by (rule length_filter_member)
  also have "\<dots> = min 3 (length ?E)" by (simp add: min.commute)
  also have "length ?E = length (filter (eligible t) (articles db))"
    by (simp add: filter_map comp_def)
  finally have p3: "length (filter is_featured (articles (updateFeatured t db)))
           = min 3 (length (filter (eligible t) (articles db)))" .
  have p4: "\<forall>f\<in>set (articles (updateFeatured t db)). \<forall>e\<in>set (articles (updateFeatured t db)).
             is_featured f \<and> eligible t e \<and> \<not> is_featured e \<longrightarrow> featured_key f \<le> featured_key e"
  proof (intro ballI impI)
    fix f e
    assume "f \<in> set (articles (updateFeatured t db))" and "e \<in> set (articles (updateFeatured t db))"
      and h: "is_featured f \<and> eligible t e \<and> \<not> is_featured e"
    then obtain cf ce where cf: "cf \<in> set ?cl" "f = flag ?top cf"
      and ce: "ce \<in> set ?cl" "e = flag ?top ce"
      by (auto simp only: rows set_map)
    from h cf have in_top: "cf \<in> set ?top" by simp
    from h ce have "ce \<in> set ?E" and out: "ce \<notin> set ?top" by simp_all
    then have "ce \<in> set (take 3 ?S @ drop 3 ?S)" by (simp only: append_take_drop_id) simp
    with out have in_rest: "ce \<in> set (drop 3 ?S)" by (simp only: set_append) blast
    have "sorted (map featured_key ?S)" by (rule sorted_sort_key)
    from sorted_take_le_drop [OF this in_top in_rest] cf ce
    show "featured_key f \<le> featured_key e" by simp
  qed
  from p1 p2 p3 p4 featured_key_order [of f0 pf e0 pe] show ?thesis by blast
qed

theorem updateFeatured_top_three_witness:
  "distinct (map article.id (articles featured_store))
   \<and> length (filter is_featured (articles (updateFeatured 200000000 featured_store))) = 3
   \<and> map article.id (filter is_featured (articles (updateFeatured 200000000 featured_store)))
       = [1, 2, 3]"
proof -
  have h: "distinct (map article.id (articles featured_store))" by code_simp
  have n: "length (filter (eligible 200000000) (articles featured_store)) = 4" by code_simp
  have i: "map article.id (filter is_featured (articles (updateFeatured 200000000 featured_store)))
       = [1, 2, 3]" by code_simp
  from updateFeatured_top_three [OF h, of 200000000]
  have "length (filter is_featured (articles (updateFeatured 200000000 featured_store)))
           = min 3 (length (filter (eligible 200000000) (articles featured_store)))"
    by blast
  with h n i show ?thesis by simp
qed

subsection \<open>Publish status and the public feed\<close>

lemma feed_articles_set:
  "set (feed_articles db)
     = {r \<in> set (articles db). status r = Published \<and> 3 \<le> article.bloom_score r}"
  by (auto simp: feed_articles_def newest_first_def)

lemma weird_articles_subset: "set (weird_articles db) \<subseteq> set (feed_articles db)"
  by (auto simp: weird_articles_def)

lemma featured_articles_subset: "set (featured_articles db) \<subseteq> set (feed_articles db)"
  unfolding featured_articles_def newest_first_def
  using set_take_subset [of 3 "sort_key (\<lambda>r. map_option uminus (article.published_at r))
                                (filter is_featured (feed_articles db))"]
  by auto

lemma fetchArticles_subset: "set (fetchArticles db c l off w) \<subseteq> set (feed_articles db)"
proof -
  have cut: "set (take l (drop off (newest_first xs))) \<subseteq> set xs" for xs :: "article list"
    using set_take_subset [of l "drop off (newest_first xs)"]
          set_drop_subset [of off "newest_first xs"]
    by (auto simp: newest_first_def)
  show ?thesis
    unfolding fetchArticles_def
    using cut [of "weird_articles db"] cut [of "feed_articles db"]
          cut [of "filter (\<lambda>a. Some (article.category_name a) = c) (feed_articles db)"]
          weird_articles_subset [of db]
    by auto
qed

lemma fetchFeatured_subset: "set (fetchFeatured db) \<subseteq> set (feed_articles db)"
  unfolding fetchFeatured_def
  using set_take_subset [of 3 "featured_articles db"] featured_articles_subset [of db] by blast

lemma fetchTrending_subset: "set (fetchTrending db) \<subseteq> set (feed_articles db)"
  unfolding fetchTrending_def
  using set_take_subset [of 7 "sort_key (\<lambda>a. - view_count a) (feed_articles db)"] by auto

lemma storeArticle_stored:
  assumes "storeArticle fault db a = (Stored new_id is_published, db')"
  shows "\<exists>row. articles db' = articles db @ [row] \<and> article.id row = new_id
           \<and> article.bloom_score row = bloom_score a
           \<and> Some (article.source_url row) = source_url a
           \<and> Some (article.title row) = title a
           \<and> status row = publish_status (bloom_score a)
           \<and> is_published = (status row = Published)
           \<and> ingestion_log db' = ingestion_log db"
  using assms
  by (auto simp: storeArticle_def inserted_row_def Let_def split: option.splits if_splits)

text \<open>
  Claim C7.  A row that \<open>storeArticle\<close> inserts has status published exactly when its bloom
  score is at least \<open>min_bloom_score\<close>, 3, and rejected otherwise; whether the insert succeeds
  does not depend on the score, so a rejected item is stored as well.  Every row that the
  views \<open>feed_articles\<close>, \<open>weird_articles\<close>, \<open>featured_articles\<close> or a query of the data layer
  returns has status published, hence is not a rejected one.
\<close>

theorem publish_status_follows_score:
  assumes "storeArticle fault db a = (Stored new_id is_published, db')"
  shows "(\<exists>row. articles db' = articles db @ [row] \<and> article.id row = new_id
            \<and> article.bloom_score row = bloom_score a
            \<and> (status row = Published) = (min_bloom_score config \<le> bloom_score a)
            \<and> (status row = Rejected) = (bloom_score a < min_bloom_score config)
            \<and> is_published = (status row = Published))
       \<and> min_bloom_score config = 3
       \<and> (r \<in> set (feed_articles db0) \<union> set (weird_articles db0) \<union> set (featured_articles db0)
              \<union> set (fetchArticles db0 c l off w) \<union> set (fetchFeatured db0)
              \<union> set (fetchTrending db0)
            \<longrightarrow> r \<in> set (articles db0) \<and> status r = Published \<and> status r \<noteq> Rejected
                \<and> 3 \<le> article.bloom_score r)
       \<and> (fault1 a1 = None \<and> title a1 = Some ttl \<and> source_url a1 = Some u
            \<and> \<not> list_ex (\<lambda>r. article.source_url r = u) (articles db1)
            \<longrightarrow> (\<exists>i db2. storeArticle fault1 db1 a1
                          = (Stored i (min_bloom_score config \<le> bloom_score a1), db2)))"
proof -
  from storeArticle_stored [OF assms] obtain row where
    row: "articles db' = articles db @ [row]" "article.id row = new_id"
         "article.bloom_score row = bloom_score a" "status row = publish_status (bloom_score a)"
         "is_published = (status row = Published)"
    by blast
  have s: "(status row = Published) = (min_bloom_score config \<le> bloom_score a)"
          "(status row = Rejected) = (bloom_score a < min_bloom_score config)"
    using row(4) by (auto simp: publish_status_def)
  have v: "r \<in> set (articles db0) \<and> status r = Published \<and> status r \<noteq> Rejected
                \<and> 3 \<le> article.bloom_score r" if "r \<in> set (feed_articles db0)"
    using that by (simp add: feed_articles_set)
  have u: "r \<in> set (feed_articles db0)"
    if "r \<in> set (feed_articles db0) \<union> set (weird_articles db0) \<union> set (featured_articles db0)
              \<union> set (fetchArticles db0 c l off w) \<union> set (fetchFeatured db0)
              \<union> set (fetchTrending db0)"
    using that weird_articles_subset [of db0] featured_articles_subset [of db0]
      fetchArticles_subset [of db0 c l off w] fetchFeatured_subset [of db0]
      fetchTrending_subset [of db0]
    by blast
  have m: "min_bloom_score config = 3" by (simp add: config_def)
  have t: "\<exists>i db2. storeArticle fault1 db1 a1
                          = (Stored i (min_bloom_score config \<le> bloom_score a1), db2)"
    if "fault1 a1 = None \<and> title a1 = Some ttl \<and> source_url a1 = Some u
            \<and> \<not> list_ex (\<lambda>r. article.source_url r = u) (articles db1)"
    using that by (simp add: storeArticle_def publish_status_def Let_def)
  from row s m v u t show ?thesis by blast
qed

theorem publish_status_follows_score_witness:
  "fst (storeArticle (\<lambda>a. None) history_store low_item) = Stored 3 False
   \<and> map status (articles (snd (storeArticle (\<lambda>a. None) history_store low_item)))
        = [Published, Published, Rejected]
   \<and> map article.id (feed_articles (snd (storeArticle (\<lambda>a. None) history_store low_item))) = [2, 1]
   \<and> (\<exists>row. articles (snd (storeArticle (\<lambda>a. None) history_store low_item))
                = articles history_store @ [row]
            \<and> (status row = Rejected) = (bloom_score low_item < min_bloom_score config))"
proof -
  let ?res = "storeArticle (\<lambda>a. None) history_store low_item"
  have f: "fst ?res = Stored 3 False" by code_simp
  then have h: "?res = (Stored 3 False, snd ?res)" by (metis prod.collapse)
  have s: "map status (articles (snd ?res)) = [Published, Published, Rejected]" by code_simp
  have v: "map article.id (feed_articles (snd ?res)) = [2, 1]" by code_simp
  from publish_status_follows_score [OF h]
  have "\<exists>row. articles (snd ?res) = articles history_store @ [row]
            \<and> (status row = Rejected) = (bloom_score low_item < min_bloom_score config)"
    by blast
  with f s v show ?thesis by blast
qed

subsection \<open>The store loop\<close>

lemma isDuplicate_iff:
  "isDuplicate db x \<longleftrightarrow> x \<in> Some ` article.source_url ` set (articles db)"
proof -
  have "(take 1 xs \<noteq> []) = (xs \<noteq> [])" for xs :: "article list" by (cases xs) simp_all
  then show ?thesis
    by (auto simp: isDuplicate_def Let_def filter_empty_conv)
qed

lemma storeArticle_fresh:
  assumes "fault a = None" and "title a = Some ttl" and "source_url a = Some u"
    and "\<not> isDuplicate db (source_url a)"
  shows "storeArticle fault db a
           = (Stored (next_id (articles db)) (min_bloom_score config \<le> bloom_score a),
              db\<lparr>articles := articles db @ [inserted_row (next_id (articles db)) ttl u a]\<rparr>)"
  using assms
  by (auto simp: storeArticle_def Let_def publish_status_def isDuplicate_iff list_ex_iff)

lemma counted_Nil: "counted [] s = s"
  by (simp add: counted_def)

lemma counted_Cons:
  "counted (a # rest) s
     = counted rest (count_result (Stored i (min_bloom_score config \<le> bloom_score a)) s)"
  by (simp add: counted_def count_result_def)

lemma store_loop_fresh:
  assumes "\<forall>c\<in>set cs. fault c = None"
    and "\<forall>c\<in>set cs. truthy (title c) \<and> truthy (source_url c)"
    and "distinct (map source_url cs)"
    and "\<forall>c\<in>set cs. \<not> isDuplicate db (source_url c)"
  shows "\<exists>db'. store_loop fault cs (db, s) = (db', counted cs s)
             \<and> ingestion_log db' = ingestion_log db"
  using assms
proof (induction cs arbitrary: db s)
  case Nil
  then show ?case by (simp add: counted_Nil)
next
  case (Cons a rest)
  from Cons.prems(2) obtain ttl u where tu: "title a = Some ttl" "source_url a = Some u"
    by (cases "title a"; cases "source_url a") auto
  from Cons.prems(1,4) have fa: "fault a = None" and nd: "\<not> isDuplicate db (source_url a)"
    by simp_all
  from fa tu nd
  have st: "storeArticle fault db a
           = (Stored (next_id (articles db)) (min_bloom_score config \<le> bloom_score a),
              db\<lparr>articles := articles db @ [inserted_row (next_id (articles db)) ttl u a]\<rparr>)"
    by (rule storeArticle_fresh)
  let ?row = "inserted_row (next_id (articles db)) ttl u a"
  have url: "article.source_url ?row = u" by (simp add: inserted_row_def)
  let ?db = "db\<lparr>articles := articles db @ [?row]\<rparr>"
  have fresh: "\<forall>c\<in>set rest. \<not> isDuplicate ?db (source_url c)"
  proof
    fix c assume c: "c \<in> set rest"
    with Cons.prems(4) have "\<not> isDuplicate db (source_url c)" by simp
    moreover have "source_url c \<noteq> Some u"
    proof
      assume "source_url c = Some u"
      with c tu have "source_url a \<in> source_url ` set rest" by (metis imageI)
      with Cons.prems(3) show False by simp
    qed
    ultimately show "\<not> isDuplicate ?db (source_url c)"
      using url by (auto simp: isDuplicate_iff)
  qed
  from Cons.prems have "\<forall>c\<in>set rest. fault c = None"
    "\<forall>c\<in>set rest. truthy (title c) \<and> truthy (source_url c)" "distinct (map source_url rest)"
    by simp_all
  from Cons.IH [OF this fresh] obtain db' where
    "store_loop fault rest (?db, count_result (Stored (next_id (articles db))
         (min_bloom_score config \<le> bloom_score a)) s)
       = (db', counted rest (count_result (Stored (next_id (articles db))
            (min_bloom_score config \<le> bloom_score a)) s))"
    and "ingestion_log db' = ingestion_log ?db"
    by blast
  then show ?case
    by (simp add: st counted_Cons [of a rest s "next_id (articles db)"])
qed

subsection \<open>The run\<close>

lemma run_history:
  "history_loop db t (aggregate xs) s =
     Inr (filter (\<lambda>a. \<not> history_duplicate db t a) (aggregate xs),
          s\<lparr>deduplicated := deduplicated s + length (filter (history_duplicate db t) (aggregate xs))\<rparr>)"
proof (rule history_loop_total)
  show "\<forall>a\<in>set (aggregate xs). isDuplicate db (source_url a) \<or> title a \<noteq> None"
    using aggregate_subset [of xs] by (auto simp: has_title_and_url_def)
qed

lemma updateFeatured_log: "ingestion_log (updateFeatured t db) = ingestion_log db"
  by (simp add: updateFeatured_def Let_def)

lemma truncate_fields:
  "title (raw_item.truncate c) = title c" "source_url (raw_item.truncate c) = source_url c"
  by (simp_all add: raw_item.truncate_def)

lemma classified_fresh:
  assumes "cls = fst (classify_from orc new 0)"
    and "new = filter (\<lambda>a. \<not> history_duplicate db t a) (aggregate xs)"
  shows "(\<forall>c\<in>set cls. truthy (title c) \<and> truthy (source_url c))
       \<and> distinct (map source_url cls)
       \<and> (\<forall>c\<in>set cls. \<not> isDuplicate db (source_url c))
       \<and> length cls = length new"
proof -
  have tr: "map raw_item.truncate cls = new"
    using classify_from_truncate [of orc new 0] assms(1) by simp
  have urls: "map source_url cls = map source_url new"
  proof -
    have "map source_url cls = map source_url (map raw_item.truncate cls)"
      by (simp add: truncate_fields comp_def)
    then show ?thesis by (simp only: tr)
  qed
  have orig: "raw_item.truncate c \<in> set new" if "c \<in> set cls" for c
    using that tr by (metis imageI set_map)
  have good: "truthy (title a) \<and> truthy (source_url a) \<and> \<not> isDuplicate db (source_url a)"
    if "a \<in> set new" for a
    using that assms(2) aggregate_subset [of xs]
    by (auto simp: has_title_and_url_def history_duplicate_def)
  have p1: "\<forall>c\<in>set cls. truthy (title c) \<and> truthy (source_url c)"
    using good [OF orig] by (simp add: truncate_fields)
  have p3: "\<forall>c\<in>set cls. \<not> isDuplicate db (source_url c)"
    using good [OF orig] by (simp add: truncate_fields)
  have "distinct (map source_url new)"
    unfolding assms(2) using aggregate_distinct [of xs] by (rule distinct_map_filter)
  then have p2: "distinct (map source_url cls)" by (simp only: urls)
  have p4: "length cls = length new" using tr by (metis length_map)
  from p1 p2 p3 p4 show ?thesis by blast
qed

lemma run_none_new:
  assumes "filter (\<lambda>a. \<not> history_duplicate db (now e) a) (aggregate (collect e)) = []"
  shows "run e db = db"
  using assms by (simp add: run_def run_body_def Let_def run_history)

lemma run_completed:
  assumes "\<forall>a. insert_fault e a = None"
    and "new = filter (\<lambda>a. \<not> history_duplicate db (now e) a) (aggregate (collect e))"
    and "new \<noteq> []"
    and "cls = fst (classify_from (anthropic e) new 0)"
  shows "ingestion_log (run e db) = ingestion_log db @
           [\<lparr>source = ''all'',
             articles_fetched = length (aggregate (collect e)),
             articles_classified = length new,
             articles_published = length (filter (\<lambda>c. min_bloom_score config \<le> bloom_score c) cls),
             articles_rejected = length (filter (\<lambda>c. bloom_score c < min_bloom_score config) cls),
             articles_deduplicated
               = length (filter (history_duplicate db (now e)) (aggregate (collect e))),
             errors = None,
             duration_seconds = duration_of e\<rparr>]"
proof -
  let ?agg = "aggregate (collect e)"
  let ?s1 = "(initial_stats\<lparr>fetched := length ?agg\<rparr>)
               \<lparr>deduplicated := deduplicated (initial_stats\<lparr>fetched := length ?agg\<rparr>)
                  + length (filter (history_duplicate db (now e)) ?agg)\<rparr>"
  obtain n where cf: "classify_from (anthropic e) new 0 = (cls, n)"
    using assms(4) by (cases "classify_from (anthropic e) new 0") simp
  have n: "n = length new"
    using classify_from_truncate [of "anthropic e" new 0] cf by simp
  let ?s2 = "?s1\<lparr>classified := classified ?s1 + n\<rparr>"
  from classified_fresh [OF assms(4) assms(2)]
  have fr: "\<forall>c\<in>set cls. truthy (title c) \<and> truthy (source_url c)"
    "distinct (map source_url cls)" "\<forall>c\<in>set cls. \<not> isDuplicate db (source_url c)"
    by blast+
  have "\<forall>c\<in>set cls. insert_fault e c = None" using assms(1) by simp
  from store_loop_fresh [OF this fr, of ?s2] obtain db3 where
    sl: "store_loop (insert_fault e) cls (db, ?s2) = (db3, counted cls ?s2)"
    and lg: "ingestion_log db3 = ingestion_log db"
    by blast
  have body: "run_body e db = Completed (counted cls ?s2) (updateFeatured (now e) db3)"
    using assms(3) sl by (simp add: run_body_def Let_def run_history assms(2) [symmetric] cf)
  show ?thesis
    by (simp add: run_def body write_log_def updateFeatured_log lg counted_def n initial_stats_def)
qed

lemma classify_from_single:
  assumes "new \<noteq> []" and "length new \<le> batch_size config"
  shows "classify_from orc new 0 = (classifyBatch (orc new) new, length new)"
proof -
  have stop: "classify_from orc new (0 + batch_size config) = ([], 0)"
    using assms(2) by (subst classify_from.simps) simp
  have "0 < length new" using assms(1) by simp
  then show ?thesis
    using assms(2) stop
    by (subst classify_from.simps) (simp add: Let_def classifyBatch_length)
qed

lemma classifyBatch_scores:
  assumes "length batch = length cs"
  shows "map bloom_score (classifyBatch (Parsed cs) batch)
       = map (\<lambda>b. or_number b 3) (map classification.bloom_score cs)"
proof (rule nth_equalityI)
  show "length (map bloom_score (classifyBatch (Parsed cs) batch))
      = length (map (\<lambda>b. or_number b 3) (map classification.bloom_score cs))"
    using assms by (simp add: classifyBatch_length)
next
  fix i assume "i < length (map bloom_score (classifyBatch (Parsed cs) batch))"
  then have i: "i < length batch" by (simp add: classifyBatch_length)
  with assms show "map bloom_score (classifyBatch (Parsed cs) batch) ! i
      = map (\<lambda>b. or_number b 3) (map classification.bloom_score cs) ! i"
    by (simp add: classifyBatch_length classifyBatch_parsed_nth classify_item_def at_index_def)
qed

lemma count_by_score:
  "length (filter (\<lambda>c. P (bloom_score c)) cls) = length (filter P (map bloom_score cls))"
  by (simp add: filter_map comp_def)

text \<open>
  Claim C2 fails on the code.  In this run both candidates match the store, one by its URL
  and one by its title, no new article is left, and \<open>run\<close> returns from inside the \<open>try\<close>
  statement: the insert into \<open>ingestion_log\<close> that follows the statement is not reached and
  the log stays empty.
\<close>

theorem rerun_writes_no_audit_row:
  "length (aggregate (collect rerun_env)) = 2
   \<and> ingestion_log (run rerun_env history_store) = []
   \<and> map article.id (articles (run rerun_env history_store)) = [1, 2]"
  by code_simp

text \<open>
  Claim C3 (as amended).  In the end-to-end scenario (12 items collected, 10 left by the
  aggregator, 2 of them matched in the store, the oracle scoring the 8 others 5, 4, 3, 2, 1,
  5, 4, 3, no insert failing) the audit row records fetched = 10, the candidates after the
  aggregator, deduplicated = 2, the matches in the store only, classified = 8, published = 6
  and rejected = 2.
\<close>

theorem scenario_statistics:
  assumes "length (collect e) = 12"
    and "length (aggregate (collect e)) = 10"
    and "length (filter (history_duplicate db (now e)) (aggregate (collect e))) = 2"
    and "anthropic e (filter (\<lambda>a. \<not> history_duplicate db (now e) a) (aggregate (collect e)))
           = Parsed cs"
    and "map classification.bloom_score cs
           = [Some 5, Some 4, Some 3, Some 2, Some 1, Some 5, Some 4, Some 3]"
    and "\<forall>a. insert_fault e a = None"
  shows "ingestion_log (run e db) = ingestion_log db @
           [\<lparr>source = ''all'', articles_fetched = 10, articles_classified = 8,
             articles_published = 6, articles_rejected = 2, articles_deduplicated = 2,
             errors = None, duration_seconds = duration_of e\<rparr>]"
proof -
  let ?agg = "aggregate (collect e)"
  let ?new = "filter (\<lambda>a. \<not> history_duplicate db (now e) a) ?agg"
  let ?cls = "fst (classify_from (anthropic e) ?new 0)"
  have "length (filter (history_duplicate db (now e)) ?agg) + length ?new = length ?agg"
    by (rule sum_length_filter_compl)
  with assms(2,3) have len: "length ?new = 8" by simp
  then have ne: "?new \<noteq> []" by auto
  have "length (map classification.bloom_score cs) = 8"
    by (simp only: assms(5)) simp
  then have "length cs = 8" by simp
  with len have same: "length ?new = length cs" by simp
  have "classify_from (anthropic e) ?new 0 = (classifyBatch (anthropic e ?new) ?new, length ?new)"
    using ne len by (intro classify_from_single) (simp_all add: config_def)
  then have cls: "?cls = classifyBatch (Parsed cs) ?new" by (simp add: assms(4))
  have scores: "map bloom_score ?cls = [5, 4, 3, 2, 1, 5, 4, 3]"
    unfolding cls classifyBatch_scores [OF same] assms(5) by simp
  have pub: "length (filter (\<lambda>c. min_bloom_score config \<le> bloom_score c) ?cls) = 6"
    unfolding count_by_score [of "\<lambda>b. min_bloom_score config \<le> b"] scores
    by (simp add: config_def)
  have rej: "length (filter (\<lambda>c. bloom_score c < min_bloom_score config) ?cls) = 2"
    unfolding count_by_score [of "\<lambda>b. b < min_bloom_score config"] scores
    by (simp add: config_def)
  from run_completed [OF assms(6) refl ne refl]
  show ?thesis by (simp only: assms(2,3) len pub rej)
qed

theorem scenario_statistics_witness:
  "length (collect scenario_env) = 12
   \<and> length (aggregate (collect scenario_env)) = 10
   \<and> length (filter (history_duplicate scenario_store (now scenario_env))
         (aggregate (collect scenario_env))) = 2
   \<and> ingestion_log (run scenario_env scenario_store) = ingestion_log scenario_store @
           [\<lparr>source = ''all'', articles_fetched = 10, articles_classified = 8,
             articles_published = 6, articles_rejected = 2, articles_deduplicated = 2,
             errors = None, duration_seconds = duration_of scenario_env\<rparr>]"
proof -
  have h1: "length (collect scenario_env) = 12" by code_simp
  have h2: "length (aggregate (collect scenario_env)) = 10" by code_simp
  have h3: "length (filter (history_duplicate scenario_store (now scenario_env))
         (aggregate (collect scenario_env))) = 2" by code_simp
  have h4: "anthropic scenario_env
              (filter (\<lambda>a. \<not> history_duplicate scenario_store (now scenario_env) a)
                 (aggregate (collect scenario_env)))
            = Parsed (map scored [5, 4, 3, 2, 1, 5, 4, 3])"
    by (simp add: scenario_env_def)
  have h5: "map classification.bloom_score (map scored [5, 4, 3, 2, 1, 5, 4, 3])
            = [Some 5, Some 4, Some 3, Some 2, Some 1, Some 5, Some 4, Some 3]"
    by (simp add: scored_def)
  have h6: "\<forall>a. insert_fault scenario_env a = None" by (simp add: scenario_env_def)
  from scenario_statistics [OF h1 h2 h3 h4 h5 h6] h1 h2 h3 show ?thesis by blast
qed

text \<open>Claim C3 as stated fails: in this instance of the scenario the audit row has
  fetched = 10 and deduplicated = 2, not 12 and 4.\<close>

theorem scenario_counterexample:
  "length (collect scenario_env) = 12
   \<and> length (aggregate (collect scenario_env)) = 10
   \<and> ingestion_log (run scenario_env scenario_store)
       = [\<lparr>source = ''all'', articles_fetched = 10, articles_classified = 8,
           articles_published = 6, articles_rejected = 2, articles_deduplicated = 2,
           errors = None, duration_seconds = 5\<rparr>]"
  by code_simp




end
